theory Spec2Isabelle
  imports Main
begin

section \<open>Host values\<close>

text \<open>
  The service worker \<^verbatim>\<open>src/service-worker.js\<close> is a set of event handlers running
  against services of the browser: the cache storage, the network, the console and the
  notification centre. The handlers are modelled as functions that take the state of these
  services and return it updated, together with the value their promise settles with.

  A promise either resolves with a value or rejects with an error. \<open>NetworkError\<close> stands for
  the error with which \<^verbatim>\<open>fetch\<close> rejects when the network fails. JavaScript strings are
  modelled as byte strings; a character beyond ASCII is written as its UTF-8 bytes.
\<close>

datatype js_error = NetworkError | SyntaxError | TypeError | InvalidStateError

datatype 'a promise = Resolved 'a | Rejected js_error

text \<open>
  \<^verbatim>\<open>new URL(request.url)\<close> is computed by the host; a request carries the components the
  handlers and the cache read: the URL serialised without its fragment, the fragment (if
  any), and \<^verbatim>\<open>protocol\<close>, \<^verbatim>\<open>hostname\<close> and \<^verbatim>\<open>pathname\<close>. \<^verbatim>\<open>request.url\<close> is
  \<open>href\<close>.
\<close>

record URL =
  without_fragment :: string
  fragment :: "string option"
  protocol :: string
  hostname :: string
  pathname :: string

definition href :: "URL \<Rightarrow> string" where
  "href u = without_fragment u @ (case fragment u of None \<Rightarrow> [] | Some f \<Rightarrow> CHR ''#'' # f)"

text \<open>
  The header list of a request gives each header name, in lower case, once, with its
  combined value.
\<close>

record request =
  "method" :: string
  url :: URL
  destination :: string
  cache_mode :: string
  headers :: "(string \<times> string) list"

text \<open>
  Of the headers of a response the cache reads \<^verbatim>\<open>Vary\<close>: \<open>vary\<close> lists the field values
  of that header, in lower case (\<^verbatim>\<open>*\<close> among them for \<^verbatim>\<open>Vary: *\<close>).
\<close>

record response =
  status :: nat
  statusText :: string
  vary :: "string list"
  content :: string

text \<open>
  A value that \<^verbatim>\<open>JSON.parse\<close> can return. The handlers only test a number for being
  zero, so numbers are integers here.
\<close>

datatype json =
    JNull
  | JBool bool
  | JNumber int
  | JString string
  | JArray "json list"
  | JObject "(string \<times> json) list"

text \<open>
  The payload of a push message (\<^verbatim>\<open>event.data\<close>): what its \<^verbatim>\<open>json()\<close> returns or throws,
  and its \<^verbatim>\<open>text()\<close>.
\<close>

record push_data =
  json_of :: "js_error + json"
  text_of :: string

text \<open>
  The options of a notification that depend on the payload. The handler also passes fixed
  presentation options (icon, badge, vibration pattern, the two actions, renotify), which no
  branch of it changes.
\<close>

record notification_options =
  body :: json
  data_url :: json
  tag :: json

text \<open>\<^verbatim>\<open>response.ok\<close>: the status is in the range 200 to 299.\<close>

definition ok :: "response \<Rightarrow> bool" where
  "ok r = (200 \<le> status r \<and> status r \<le> 299)"

subsection \<open>Strings\<close>

text \<open>\<^verbatim>\<open>s.startsWith(p)\<close> and \<^verbatim>\<open>s.includes(d)\<close> of JavaScript strings.\<close>

definition startsWith :: "string \<Rightarrow> string \<Rightarrow> bool" where
  "startsWith s p = (take (length p) s = p)"

fun includes_str :: "string \<Rightarrow> string \<Rightarrow> bool" where
  "includes_str [] d = (d = [])"
| "includes_str (c # cs) d = (startsWith (c # cs) d \<or> includes_str cs d)"

text \<open>The protocol of a URL whose scheme is HTTP or HTTPS.\<close>

definition http_or_https :: "string \<Rightarrow> bool" where
  "http_or_https p = (p = ''http:'' \<or> p = ''https:'')"

subsection \<open>Configuration\<close>

definition CACHE_NAME :: string where
  "CACHE_NAME = ''luvano-v1.0.0''"

definition STATIC_CACHE :: string where
  "STATIC_CACHE = ''luvano-static-v1''"

definition DYNAMIC_CACHE :: string where
  "DYNAMIC_CACHE = ''luvano-dynamic-v1''"

definition STATIC_ASSETS :: "string list" where
  "STATIC_ASSETS =
    [''/'',
     ''/index.html'',
     ''/login.html'',
     ''/cadastro.html'',
     ''/produto.html'',
     ''/publicar.html'',
     ''/pagamento.html'',
     ''/perfil.html'',
     ''/editar-perfil.html'',
     ''/meus-produtos.html'',
     ''/vendedor.html'',
     ''/carteira.html'',
     ''/levantamento.html'',
     ''/favoritos.html'',
     ''/compras.html'',
     ''/notificacoes.html'',
     ''/conversas.html'',
     ''/chat.html'',
     ''/verificar.html'',
     ''/configuracoes.html'',
     ''/sobre.html'',
     ''/admin.html'',
     ''/admin-usuarios.html'',
     ''/admin-produtos.html'',
     ''/admin-pagamentos.html'',
     ''/manifest.json'']"

definition NETWORK_FIRST :: "string list" where
  "NETWORK_FIRST = [''supabase.co'', ''cdn.jsdelivr.net'']"

section \<open>The cache storage, the network and the trace of effects\<close>

text \<open>
  A cache is the list of the request and response pairs it stores, oldest first. The cache
  storage (\<^verbatim>\<open>caches\<close>) is the list of named caches in the order of their creation:
  \<^verbatim>\<open>caches.open\<close> creates a cache that does not exist, \<^verbatim>\<open>caches.match\<close> searches the
  caches in that order, \<^verbatim>\<open>caches.keys\<close> lists the names and \<^verbatim>\<open>caches.delete\<close> removes a
  cache.

  A request matches a stored pair (with no match options, as the handlers call it) when it
  is a GET request, its URL equals the stored request's URL with the fragments left out, and
  every header the stored response names in \<^verbatim>\<open>Vary\<close> has the same value in both requests.
\<close>

type_synonym cache = "(request \<times> response) list"

type_synonym cache_storage = "(string \<times> cache) list"

definition header :: "request \<Rightarrow> string \<Rightarrow> string option" where
  "header rq name = map_of (headers rq) name"

definition request_matches :: "request \<Rightarrow> request \<times> response \<Rightarrow> bool" where
  "request_matches query item =
     (method query = ''GET'' \<and>
      without_fragment (url query) = without_fragment (url (fst item)) \<and>
      list_all (\<lambda>name. name \<noteq> ''*'' \<and> header (fst item) name = header query name)
        (vary (snd item)))"

definition cache_match :: "cache \<Rightarrow> request \<Rightarrow> response option" where
  "cache_match c query = map_option snd (find (request_matches query) c)"

text \<open>
  \<^verbatim>\<open>cache.put(request, response)\<close> rejects with a TypeError, and stores nothing, when the
  request's scheme is not HTTP(S) or its method is not GET, when the status of the response
  is 206, and when the response has \<^verbatim>\<open>Vary: *\<close>. Otherwise it removes the pairs the
  request matches and appends the new pair. The storage is taken to have room for what is
  written, and the body of a response to be unread when it is stored.
\<close>

definition put_accepts :: "request \<Rightarrow> response \<Rightarrow> bool" where
  "put_accepts rq r =
     (http_or_https (protocol (url rq)) \<and> method rq = ''GET'' \<and> status r \<noteq> 206 \<and>
      ''*'' \<notin> set (vary r))"

definition cache_put :: "request \<Rightarrow> response \<Rightarrow> cache \<Rightarrow> cache" where
  "cache_put rq r c = filter (\<lambda>item. \<not> request_matches rq item) c @ [(rq, r)]"

definition caches_keys :: "cache_storage \<Rightarrow> string list" where
  "caches_keys cs = map fst cs"

definition caches_open :: "string \<Rightarrow> cache_storage \<Rightarrow> cache_storage" where
  "caches_open name cs = (if name \<in> set (caches_keys cs) then cs else cs @ [(name, [])])"

definition caches_delete :: "string \<Rightarrow> cache_storage \<Rightarrow> cache_storage" where
  "caches_delete name cs = filter (\<lambda>e. fst e \<noteq> name) cs"

fun caches_match :: "cache_storage \<Rightarrow> request \<Rightarrow> response option" where
  "caches_match [] query = None"
| "caches_match ((name, c) # cs) query =
     (case cache_match c query of Some r \<Rightarrow> Some r | None \<Rightarrow> caches_match cs query)"

text \<open>The cache called \<open>name\<close> with its content replaced; a cache that was deleted takes no write.\<close>

definition update_cache :: "string \<Rightarrow> (cache \<Rightarrow> cache) \<Rightarrow> cache_storage \<Rightarrow> cache_storage" where
  "update_cache name f cs = map (\<lambda>e. if fst e = name then (fst e, f (snd e)) else e) cs"

definition caches_put :: "string \<Rightarrow> request \<Rightarrow> response \<Rightarrow> cache_storage \<Rightarrow> cache_storage" where
  "caches_put name rq r cs = update_cache name (cache_put rq r) cs"

text \<open>What the cache called \<open>name\<close> answers to \<^verbatim>\<open>cache.match(query)\<close>, if the cache exists.\<close>

definition generation_match :: "string \<Rightarrow> cache_storage \<Rightarrow> request \<Rightarrow> response option" where
  "generation_match name cs query =
     (case map_of cs name of None \<Rightarrow> None | Some c \<Rightarrow> cache_match c query)"

text \<open>
  The effects a handler has on the host, in the order it causes them: a fetch it issues, the
  point where it waits for the fetch it issued to settle (\<^verbatim>\<open>await\<close>), a call of
  \<^verbatim>\<open>cache.put\<close>, a rejection that nothing handles, the deletion of a cache, the console,
  the worker's lifecycle calls and the display of a notification.
\<close>

datatype event =
    Fetch request
  | AwaitFetch request
  | CachePut string request response
  | UnhandledRejection js_error
  | CacheDelete string
  | ConsoleLog "string list"
  | ConsoleWarn string js_error
  | SkipWaiting
  | ClientsClaim
  | ShowNotification json notification_options

record world =
  caches :: cache_storage
  events :: "event list"

text \<open>
  The environment of one handler run: the location and origin of the worker, against which
  a root-relative URL such as \<^verbatim>\<open>'/index.html'\<close> is resolved, and the network, which settles
  the fetch of a request with a response or rejects it.
\<close>

record env =
  location :: URL
  origin :: string
  net :: "request \<Rightarrow> response promise"

definition emit :: "event \<Rightarrow> world \<Rightarrow> world" where
  "emit e w = w\<lparr>events := events w @ [e]\<rparr>"

definition fetch :: "env \<Rightarrow> request \<Rightarrow> world \<Rightarrow> response promise \<times> world" where
  "fetch E request w = (net E request, emit (Fetch request) w)"

definition open_cache :: "string \<Rightarrow> world \<Rightarrow> world" where
  "open_cache name w = w\<lparr>caches := caches_open name (caches w)\<rparr>"

text \<open>
  \<^verbatim>\<open>cache.put(request, response.clone())\<close> as the strategies call it: the promise is neither
  awaited nor caught, so a refusal of the cache stores nothing and is an unhandled rejection.
\<close>

definition put :: "string \<Rightarrow> request \<Rightarrow> response \<Rightarrow> world \<Rightarrow> world" where
  "put name request r w =
     (if put_accepts request r
      then emit (CachePut name request r) (w\<lparr>caches := caches_put name request r (caches w)\<rparr>)
      else emit (UnhandledRejection TypeError) (emit (CachePut name request r) w))"

text \<open>
  \<^verbatim>\<open>new Request(url)\<close> for a root-relative URL, as \<^verbatim>\<open>caches.match('/index.html')\<close> builds
  it: a GET request to the worker's origin, without headers.
\<close>

definition url_request :: "env \<Rightarrow> string \<Rightarrow> request" where
  "url_request E path =
     \<lparr>method = ''GET'',
      url = \<lparr>without_fragment = origin E @ path, fragment = None,
             protocol = protocol (location E), hostname = hostname (location E),
             pathname = path\<rparr>,
      destination = [],
      cache_mode = ''default'',
      headers = []\<rparr>"

section \<open>The retrieval strategies\<close>

text \<open>
  \<^verbatim>\<open>offlineFallback(request)\<close>: for a document, whatever \<^verbatim>\<open>caches.match('/index.html')\<close>
  resolves with (\<open>None\<close> is JavaScript's \<^verbatim>\<open>undefined\<close>); otherwise an empty response of
  status 503.
\<close>

definition offlineFallback :: "env \<Rightarrow> request \<Rightarrow> world \<Rightarrow> response option" where
  "offlineFallback E request w =
     (if destination request = ''document''
      then caches_match (caches w) (url_request E ''/index.html'')
      else Some \<lparr>status = 503,
                 statusText = ''Sem conex'' @ [CHR 0xC3, CHR 0xA3] @ ''o'',
                 vary = [],
                 content = ''''\<rparr>)"

definition cacheFirst :: "env \<Rightarrow> request \<Rightarrow> world \<Rightarrow> response option promise \<times> world" where
  "cacheFirst E request w =
     (case caches_match (caches w) request of
        Some cached \<Rightarrow> (Resolved (Some cached), w)
      | None \<Rightarrow>
          (case fetch E request w of
             (Resolved r, w1) \<Rightarrow>
               (let w2 = emit (AwaitFetch request) w1 in
                if ok r
                then (Resolved (Some r), put STATIC_CACHE request r (open_cache STATIC_CACHE w2))
                else (Resolved (Some r), w2))
           | (Rejected err, w1) \<Rightarrow>
               (let w2 = emit (AwaitFetch request) w1 in
                (Resolved (offlineFallback E request w2), w2))))"

definition networkFirst :: "env \<Rightarrow> request \<Rightarrow> world \<Rightarrow> response option promise \<times> world" where
  "networkFirst E request w =
     (case fetch E request w of
        (Resolved r, w1) \<Rightarrow>
          (let w2 = emit (AwaitFetch request) w1 in
           if ok r
           then (Resolved (Some r), put DYNAMIC_CACHE request r (open_cache DYNAMIC_CACHE w2))
           else (Resolved (Some r), w2))
      | (Rejected err, w1) \<Rightarrow>
          (let w2 = emit (AwaitFetch request) w1 in
           (case caches_match (caches w2) request of
              Some cached \<Rightarrow> (Resolved (Some cached), w2)
            | None \<Rightarrow> (Resolved (offlineFallback E request w2), w2))))"

text \<open>
  In \<^verbatim>\<open>staleWhileRevalidate\<close> the fetch is issued and its continuation
  (\<open>revalidate\<close>: store an ok response, turn a rejection into \<^verbatim>\<open>null\<close>) runs whether or
  not the function waits for it; \<^verbatim>\<open>cached || await fetchPromise || ...\<close> waits only when
  nothing was cached.
\<close>

definition revalidate :: "request \<Rightarrow> response promise \<Rightarrow> world \<Rightarrow> response option \<times> world" where
  "revalidate request p w =
     (case p of
        Resolved r \<Rightarrow> (Some r, if ok r then put DYNAMIC_CACHE request r w else w)
      | Rejected err \<Rightarrow> (None, w))"

definition staleWhileRevalidate :: "env \<Rightarrow> request \<Rightarrow> world \<Rightarrow> response option promise \<times> world" where
  "staleWhileRevalidate E request w =
     (let w1 = open_cache DYNAMIC_CACHE w;
          cached = generation_match DYNAMIC_CACHE (caches w1) request;
          (p, w2) = fetch E request w1
      in case cached of
           Some c \<Rightarrow> (Resolved (Some c), snd (revalidate request p w2))
         | None \<Rightarrow>
             (case revalidate request p (emit (AwaitFetch request) w2) of
                (Some r, w3) \<Rightarrow> (Resolved (Some r), w3)
              | (None, w3) \<Rightarrow> (Resolved (offlineFallback E request w3), w3)))"

section \<open>The fetch handler\<close>

datatype respond = PassThrough | RespondWith "response option promise"

definition respondWith :: "response option promise \<times> world \<Rightarrow> respond \<times> world" where
  "respondWith pw = (RespondWith (fst pw), snd pw)"

definition on_fetch :: "env \<Rightarrow> request \<Rightarrow> world \<Rightarrow> respond \<times> world" where
  "on_fetch E request w =
     (if method request \<noteq> ''GET'' then (PassThrough, w)
      else if \<not> startsWith (protocol (url request)) ''http'' then (PassThrough, w)
      else if list_ex (\<lambda>domain. includes_str (hostname (url request)) domain) NETWORK_FIRST
      then respondWith (networkFirst E request w)
      else if pathname (url request) \<in> set STATIC_ASSETS
      then respondWith (cacheFirst E request w)
      else if destination request = ''image''
      then respondWith (staleWhileRevalidate E request w)
      else respondWith (networkFirst E request w))"

section \<open>Install and activate\<close>

text \<open>
  \<^verbatim>\<open>new Request(url, { cache: 'reload' })\<close> for a root-relative URL: a GET request to the
  worker's origin that bypasses the HTTP cache.
\<close>

definition reload_request :: "env \<Rightarrow> string \<Rightarrow> request" where
  "reload_request E path = (url_request E path)\<lparr>cache_mode := ''reload''\<rparr>"

text \<open>
  \<^verbatim>\<open>cache.addAll(requests)\<close> of the host. A request whose scheme is not HTTP(S) or whose
  method is not GET rejects the call before anything is fetched. Every request is then
  fetched; the call rejects with a TypeError when a fetch fails or a response is not ok, has
  status 206 or has \<^verbatim>\<open>Vary: *\<close>. The responses are then stored as one batch, which fails
  with an InvalidStateError when a request matches a pair the batch has already added. A
  call that rejects stores nothing.
\<close>

definition settles_ok :: "response promise \<Rightarrow> bool" where
  "settles_ok p =
     (case p of
        Resolved r \<Rightarrow> ok r \<and> status r \<noteq> 206 \<and> ''*'' \<notin> set (vary r)
      | Rejected err \<Rightarrow> False)"

fun fetched :: "response promise list \<Rightarrow> response list option" where
  "fetched [] = Some []"
| "fetched (Resolved r # ps) =
     (if settles_ok (Resolved r) then map_option (Cons r) (fetched ps) else None)"
| "fetched (Rejected err # ps) = None"

fun batch_put :: "(request \<times> response) list \<Rightarrow> (request \<times> response) list \<Rightarrow> cache \<Rightarrow> cache option" where
  "batch_put added [] c = Some c"
| "batch_put added (operation # operations) c =
     (if list_ex (request_matches (fst operation)) added then None
      else batch_put (added @ [operation]) operations
             (cache_put (fst operation) (snd operation) c))"

definition caches_batch_put ::
  "string \<Rightarrow> (request \<times> response) list \<Rightarrow> cache_storage \<Rightarrow> cache_storage option" where
  "caches_batch_put name operations cs =
     (case map_of cs name of
        None \<Rightarrow> Some cs
      | Some c \<Rightarrow> map_option (\<lambda>c'. update_cache name (\<lambda>old. c') cs) (batch_put [] operations c))"

definition addAll :: "env \<Rightarrow> string \<Rightarrow> request list \<Rightarrow> world \<Rightarrow> unit promise \<times> world" where
  "addAll E name requests w =
     (if list_ex (\<lambda>rq. \<not> (http_or_https (protocol (url rq)) \<and> method rq = ''GET'')) requests
      then (Rejected TypeError, w)
      else
        (let w1 = fold (\<lambda>rq. emit (Fetch rq)) requests w
         in case fetched (map (net E) requests) of
              None \<Rightarrow> (Rejected TypeError, w1)
            | Some responses \<Rightarrow>
                (case caches_batch_put name (zip requests responses) (caches w1) of
                   None \<Rightarrow> (Rejected InvalidStateError, w1)
                 | Some cs \<Rightarrow> (Resolved (), w1\<lparr>caches := cs\<rparr>))))"

text \<open>The promise handed to \<^verbatim>\<open>event.waitUntil\<close> by the install handler.\<close>

definition on_install :: "env \<Rightarrow> world \<Rightarrow> unit promise \<times> world" where
  "on_install E w =
     (let w0 = emit (ConsoleLog [''[SW Luvano] Instalando vers'' @ [CHR 0xC3, CHR 0xA3] @ ''o:'',
                                 CACHE_NAME]) w;
          w1 = open_cache STATIC_CACHE w0;
          w2 = emit (ConsoleLog [''[SW Luvano] Cacheando assets est'' @ [CHR 0xC3, CHR 0xA1]
                                 @ ''ticos'']) w1
      in case addAll E STATIC_CACHE (map (reload_request E) STATIC_ASSETS) w2 of
           (Resolved u, w3) \<Rightarrow> (Resolved (), emit SkipWaiting w3)
         | (Rejected err, w3) \<Rightarrow>
             (Resolved (), emit (ConsoleWarn ''[SW Luvano] Erro no cache inicial:'' err) w3))"

definition delete_cache :: "string \<Rightarrow> world \<Rightarrow> world" where
  "delete_cache key w = emit (CacheDelete key) (w\<lparr>caches := caches_delete key (caches w)\<rparr>)"

text \<open>
  The promise handed to \<^verbatim>\<open>event.waitUntil\<close> by the activate handler.
  \<^verbatim>\<open>self.clients.claim()\<close> is called while \<^verbatim>\<open>caches.keys()\<close> is pending.
\<close>

definition on_activate :: "world \<Rightarrow> unit promise \<times> world" where
  "on_activate w =
     (let w0 = emit (ConsoleLog [''[SW Luvano] Activando service worker'']) w;
          keys = caches_keys (caches w0);
          w1 = emit ClientsClaim w0
      in (Resolved (),
          fold (\<lambda>key v. delete_cache key
                           (emit (ConsoleLog [''[SW Luvano] Removendo cache antigo:'', key]) v))
            (filter (\<lambda>key. key \<noteq> STATIC_CACHE \<and> key \<noteq> DYNAMIC_CACHE) keys) w1))"

section \<open>Push notifications\<close>

text \<open>
  Reading a property of a parsed JSON value: \<^verbatim>\<open>null\<close> has no properties and the access
  throws; an object gives its member or \<^verbatim>\<open>undefined\<close> (\<open>None\<close>); the other values have
  none of the properties the handler reads.
\<close>

fun get_prop :: "json \<Rightarrow> string \<Rightarrow> js_error + json option" where
  "get_prop JNull k = Inl TypeError"
| "get_prop (JObject members) k = Inr (map_of members k)"
| "get_prop v k = Inr None"

fun truthy :: "json \<Rightarrow> bool" where
  "truthy JNull = False"
| "truthy (JBool b) = b"
| "truthy (JNumber n) = (n \<noteq> 0)"
| "truthy (JString s) = (s \<noteq> [])"
| "truthy v = True"

text \<open>\<^verbatim>\<open>v || d\<close> for a property \<open>v\<close> that may be undefined.\<close>

definition or_else :: "json option \<Rightarrow> json \<Rightarrow> json" where
  "or_else v d = (case v of None \<Rightarrow> d | Some x \<Rightarrow> if truthy x then x else d)"

definition default_title :: string where
  "default_title = [CHR 0xF0, CHR 0x9F, CHR 0x9B, CHR 0x8D, CHR 0xEF, CHR 0xB8, CHR 0x8F] @ '' Luvano''"

definition default_body :: string where
  "default_body = ''Nova notifica'' @ [CHR 0xC3, CHR 0xA7, CHR 0xC3, CHR 0xA3] @ ''o''"

text \<open>
  The push handler returns normally (\<open>Inr\<close>) or throws (\<open>Inl\<close>). The properties are read in
  the order of the source: body, url, tag, and then title.
\<close>

definition on_push :: "push_data option \<Rightarrow> world \<Rightarrow> (js_error + unit) \<times> world" where
  "on_push event_data w =
     (case event_data of
        None \<Rightarrow> (Inr (), w)
      | Some d \<Rightarrow>
          (let data = (case json_of d of
                         Inr v \<Rightarrow> v
                       | Inl err \<Rightarrow> JObject [(''title'', JString ''Luvano''),
                                                (''body'', JString (text_of d))])
           in case get_prop data ''body'' of Inl err \<Rightarrow> (Inl err, w) | Inr b \<Rightarrow>
             (case get_prop data ''url'' of Inl err \<Rightarrow> (Inl err, w) | Inr u \<Rightarrow>
             (case get_prop data ''tag'' of Inl err \<Rightarrow> (Inl err, w) | Inr t \<Rightarrow>
             (case get_prop data ''title'' of Inl err \<Rightarrow> (Inl err, w) | Inr ti \<Rightarrow>
                (Inr (),
                 emit (ShowNotification (or_else ti (JString default_title))
                         \<lparr>body = or_else b (JString default_body),
                          data_url = or_else u (JString ''/notificacoes.html''),
                          tag = or_else t (JString ''luvano-notif'')\<rparr>) w))))))"

section \<open>Observations on a run\<close>

text \<open>The events a handler added to the trace, and the requests it fetched.\<close>

definition new_events :: "world \<Rightarrow> world \<Rightarrow> event list" where
  "new_events w w' = drop (length (events w)) (events w')"

fun fetches :: "event list \<Rightarrow> request list" where
  "fetches [] = []"
| "fetches (Fetch rq # es) = rq # fetches es"
| "fetches (e # es) = fetches es"

fun deletions :: "event list \<Rightarrow> string list" where
  "deletions [] = []"
| "deletions (CacheDelete name # es) = name # deletions es"
| "deletions (e # es) = deletions es"

fun stored :: "event list \<Rightarrow> response list" where
  "stored [] = []"
| "stored (CachePut name k r # es) = r # stored es"
| "stored (e # es) = stored es"

text \<open>Every response held by any cache of the storage is an ok response.\<close>

definition all_ok :: "cache_storage \<Rightarrow> bool" where
  "all_ok cs = list_all (\<lambda>g. list_all (\<lambda>e. ok (snd e)) (snd g)) cs"

text \<open>Fetch events dispatched one after the other, each under the network of its moment.\<close>

fun fetch_events :: "(env \<times> request) list \<Rightarrow> world \<Rightarrow> world" where
  "fetch_events [] w = w"
| "fetch_events ((E, request) # rest) w = fetch_events rest (snd (on_fetch E request w))"

section \<open>The routing contract of the specification\<close>

text \<open>
  The specification gives the routing as a list of rules of which the first that matches
  wins: (1) a request that is not GET, or whose scheme is not HTTP(S), is not intercepted;
  (2) a hostname that contains a network-first domain: network-first; (3) a path that is an
  entry of the static asset manifest: cache-first; (4) destination "image":
  stale-while-revalidate; (5) otherwise network-first. The test for an HTTP(S) scheme is a
  parameter of the contract.
\<close>

datatype strategy = CacheFirst | NetworkFirst | StaleWhileRevalidate

datatype routing = NotIntercepted | Apply strategy

fun first_match :: "(('a \<Rightarrow> bool) \<times> 'b) list \<Rightarrow> 'b \<Rightarrow> 'a \<Rightarrow> 'b" where
  "first_match [] d x = d"
| "first_match (rule # rules) d x = (if fst rule x then snd rule else first_match rules d x)"

definition routing_contract :: "(string \<Rightarrow> bool) \<Rightarrow> request \<Rightarrow> routing" where
  "routing_contract http_scheme =
     first_match
       [(\<lambda>r. method r \<noteq> ''GET'', NotIntercepted),
        (\<lambda>r. \<not> http_scheme (protocol (url r)), NotIntercepted),
        (\<lambda>r. list_ex (includes_str (hostname (url r))) NETWORK_FIRST, Apply NetworkFirst),
        (\<lambda>r. pathname (url r) \<in> set STATIC_ASSETS, Apply CacheFirst),
        (\<lambda>r. destination r = ''image'', Apply StaleWhileRevalidate)]
       (Apply NetworkFirst)"

definition apply_routing :: "env \<Rightarrow> request \<Rightarrow> world \<Rightarrow> routing \<Rightarrow> respond \<times> world" where
  "apply_routing E request w route =
     (case route of
        NotIntercepted \<Rightarrow> (PassThrough, w)
      | Apply CacheFirst \<Rightarrow> respondWith (cacheFirst E request w)
      | Apply NetworkFirst \<Rightarrow> respondWith (networkFirst E request w)
      | Apply StaleWhileRevalidate \<Rightarrow> respondWith (staleWhileRevalidate E request w))"

section \<open>Sample inputs\<close>

definition site :: "(request \<Rightarrow> response promise) \<Rightarrow> env" where
  "site network =
     \<lparr>location = \<lparr>without_fragment = ''https://luvano.example/service-worker.js'',
                  fragment = None, protocol = ''https:'', hostname = ''luvano.example'',
                  pathname = ''/service-worker.js''\<rparr>,
      origin = ''https://luvano.example'',
      net = network\<rparr>"

definition offline :: "request \<Rightarrow> response promise" where
  "offline rq = Rejected NetworkError"

definition serving :: "response \<Rightarrow> request \<Rightarrow> response promise" where
  "serving r rq = Resolved r"

definition get_request :: "string \<Rightarrow> string \<Rightarrow> string \<Rightarrow> string \<Rightarrow> request" where
  "get_request scheme host path dest =
     \<lparr>method = ''GET'',
      url = \<lparr>without_fragment = scheme @ ''//'' @ host @ path, fragment = None,
             protocol = scheme, hostname = host, pathname = path\<rparr>,
      destination = dest,
      cache_mode = ''default'',
      headers = []\<rparr>"

definition page :: "nat \<Rightarrow> string \<Rightarrow> response" where
  "page code text = \<lparr>status = code, statusText = [], vary = [], content = text\<rparr>"

definition fresh_world :: world where
  "fresh_world = \<lparr>caches = [], events = []\<rparr>"

definition holding :: "string \<Rightarrow> request \<Rightarrow> response \<Rightarrow> world" where
  "holding name rq r = \<lparr>caches = [(name, [(rq, r)])], events = []\<rparr>"

definition index_request :: request where
  "index_request = get_request ''https:'' ''luvano.example'' ''/index.html'' ''document''"

definition login_request :: request where
  "login_request = get_request ''https:'' ''luvano.example'' ''/login.html'' ''document''"

definition login_at_fragment :: request where
  "login_at_fragment = login_request\<lparr>url := (url login_request)\<lparr>fragment := Some ''entrar''\<rparr>\<rparr>"

definition api_request :: request where
  "api_request = get_request ''https:'' ''abc.supabase.co'' ''/rest/v1/produtos'' []"

definition image_request :: request where
  "image_request = get_request ''https:'' ''luvano.example'' ''/img/logo.png'' ''image''"

definition video_range_request :: request where
  "video_range_request =
     (get_request ''https:'' ''luvano.example'' ''/media/demo.mp4'' ''video'')
       \<lparr>headers := [(''range'', ''bytes=0-1023'')]\<rparr>"

definition plain_http_request :: request where
  "plain_http_request = get_request ''http:'' ''luvano.example'' ''/ajuda'' ''document''"

definition extension_request :: request where
  "extension_request = get_request ''chrome-extension:'' ''abcdefgh'' ''/content.js'' ''script''"

definition post_request :: request where
  "post_request = (get_request ''https:'' ''luvano.example'' ''/login.html'' [])\<lparr>method := ''POST''\<rparr>"

definition shell :: response where
  "shell = page 200 ''<html>shell</html>''"

definition stale :: response where
  "stale = page 200 ''stale''"

definition missing :: response where
  "missing = page 404 ''not found''"

definition partial_content :: response where
  "partial_content = page 206 ''bytes 0-1023''"

definition varying :: response where
  "varying = (page 200 ''generated'')\<lparr>vary := [''*'']\<rparr>"

section \<open>Basic facts\<close>

lemma events_emit [simp]: "events (emit e w) = events w @ [e]"
  by (simp add: emit_def)

lemma caches_emit [simp]: "caches (emit e w) = caches w"
  by (simp add: emit_def)

lemma events_open_cache [simp]: "events (open_cache name w) = events w"
  by (simp add: open_cache_def)

lemma caches_open_cache [simp]: "caches (open_cache name w) = caches_open name (caches w)"
  by (simp add: open_cache_def)

lemma events_put:
  "events (put name rq r w)
     = events w @ CachePut name rq r # (if put_accepts rq r then [] else [UnhandledRejection TypeError])"
  by (simp add: put_def)

lemma caches_put_world:
  "caches (put name rq r w) = (if put_accepts rq r then caches_put name rq r (caches w) else caches w)"
  by (simp add: put_def)

lemma fetches_append [simp]: "fetches (xs @ ys) = fetches xs @ fetches ys"
  by (induction xs rule: fetches.induct) simp_all

lemma stored_append [simp]: "stored (xs @ ys) = stored xs @ stored ys"
  by (induction xs rule: stored.induct) simp_all

lemma deletions_append [simp]: "deletions (xs @ ys) = deletions xs @ deletions ys"
  by (induction xs rule: deletions.induct) simp_all

lemma find_replaced: "find P (filter (\<lambda>x. \<not> P x) xs @ [y]) = (if P y then Some y else None)"
  by (induction xs) simp_all

lemma find_kept:
  assumes "\<And>x. P x \<Longrightarrow> Q x" and "\<not> P y"
  shows "find P (filter Q xs @ [y]) = find P xs"
  using assms by (induction xs) auto

lemma put_accepts_intercepted:
  "method rq = ''GET'' \<Longrightarrow> http_or_https (protocol (url rq)) \<Longrightarrow>
   put_accepts rq r = (status r \<noteq> 206 \<and> ''*'' \<notin> set (vary r))"
  by (simp add: put_accepts_def)

lemma matches_itself: "put_accepts rq r \<Longrightarrow> request_matches rq (rq, r)"
  by (simp add: put_accepts_def request_matches_def list_all_iff) blast

lemma cache_match_put: "request_matches rq (rq, r) \<Longrightarrow> cache_match (cache_put rq r c) rq = Some r"
  by (simp add: cache_match_def cache_put_def find_replaced)

lemma cache_match_put_other:
  assumes "without_fragment (url q) \<noteq> without_fragment (url rq)"
  shows "cache_match (cache_put rq r c) q = cache_match c q"
proof -
  have "find (request_matches q) (filter (\<lambda>item. \<not> request_matches rq item) c @ [(rq, r)])
      = find (request_matches q) c"
  proof (rule find_kept)
    fix item
    assume "request_matches q item"
    with assms show "\<not> request_matches rq item"
      by (auto simp: request_matches_def)
  next
    from assms show "\<not> request_matches q (rq, r)"
      by (simp add: request_matches_def)
  qed
  then show ?thesis
    by (simp add: cache_match_def cache_put_def)
qed

lemma caches_keys_update [simp]: "caches_keys (update_cache name f cs) = caches_keys cs"
  by (induction cs) (simp_all add: caches_keys_def update_cache_def)

lemma caches_keys_put [simp]: "caches_keys (caches_put name rq r cs) = caches_keys cs"
  by (simp add: caches_put_def)

lemma generation_match_update:
  "name \<in> set (caches_keys cs) \<Longrightarrow>
   generation_match name (update_cache name f cs) q
     = (case map_of cs name of None \<Rightarrow> None | Some c \<Rightarrow> cache_match (f c) q)"
  by (induction cs) (auto simp: generation_match_def update_cache_def caches_keys_def)

lemma generation_match_put:
  assumes "name \<in> set (caches_keys cs)" and "request_matches rq (rq, r)"
  shows "generation_match name (caches_put name rq r cs) rq = Some r"
proof -
  from assms(1) have "map_of cs name \<noteq> None"
    by (simp add: caches_keys_def map_of_eq_None_iff)
  then obtain c where "map_of cs name = Some c"
    by blast
  with assms show ?thesis
    by (simp add: caches_put_def generation_match_update cache_match_put)
qed

lemma opened: "name \<in> set (caches_keys (caches_open name cs))"
  by (simp add: caches_open_def caches_keys_def)

lemma cache_match_empty [simp]: "cache_match [] q = None"
  by (simp add: cache_match_def)

lemma caches_match_snoc_empty: "caches_match (cs @ [(name, [])]) q = caches_match cs q"
  by (induction cs) (auto split: option.splits)

lemma caches_match_open [simp]: "caches_match (caches_open name cs) q = caches_match cs q"
  by (simp add: caches_open_def caches_match_snoc_empty)

lemma generation_match_open [simp]:
  "generation_match n (caches_open name cs) q = generation_match n cs q"
proof (cases "name \<in> set (caches_keys cs)")
  case True
  then show ?thesis by (simp add: caches_open_def)
next
  case False
  then have absent: "map_of cs name = None"
    by (simp add: caches_keys_def map_of_eq_None_iff)
  show ?thesis
  proof (cases "map_of cs n")
    case None
    with False absent show ?thesis
      by (simp add: generation_match_def caches_open_def map_add_def)
  next
    case (Some c)
    with False show ?thesis
      by (simp add: generation_match_def caches_open_def map_add_def)
  qed
qed

lemma offlineFallback_emit [simp]:
  "offlineFallback E request (emit e w) = offlineFallback E request w"
  by (simp add: offlineFallback_def)

lemma offlineFallback_open_cache [simp]:
  "offlineFallback E request (open_cache name w) = offlineFallback E request w"
  by (simp add: offlineFallback_def)

lemma revalidate_Resolved:
  "revalidate request (Resolved r) w = (Some r, if ok r then put DYNAMIC_CACHE request r w else w)"
  by (simp add: revalidate_def)

lemma revalidate_Rejected: "revalidate request (Rejected err) w = (None, w)"
  by (simp add: revalidate_def)

lemma ok_shell: "ok shell"
  by (simp add: shell_def page_def ok_def)

lemma ok_stale: "ok stale"
  by (simp add: stale_def page_def ok_def)

lemma not_ok_missing: "\<not> ok missing"
  by (simp add: missing_def page_def ok_def)

lemma ok_partial_content: "ok partial_content"
  by (simp add: partial_content_def page_def ok_def)

lemma ok_varying: "ok varying"
  by (simp add: varying_def page_def ok_def)

lemma put_accepts_page:
  "method rq = ''GET'' \<Longrightarrow> http_or_https (protocol (url rq)) \<Longrightarrow> code \<noteq> 206 \<Longrightarrow>
   put_accepts rq (page code text)"
  by (simp add: put_accepts_def page_def)

lemma caches_fresh_world [simp]: "caches fresh_world = []"
  by (simp add: fresh_world_def)

lemma events_fresh_world [simp]: "events fresh_world = []"
  by (simp add: fresh_world_def)

lemma put_accepts_index_shell: "put_accepts index_request shell"
  by (simp add: shell_def put_accepts_page index_request_def get_request_def http_or_https_def)

lemma put_accepts_api_shell: "put_accepts api_request shell"
  by (simp add: shell_def put_accepts_page api_request_def get_request_def http_or_https_def)

lemma put_accepts_image_shell: "put_accepts image_request shell"
  by (simp add: shell_def put_accepts_page image_request_def get_request_def http_or_https_def)

lemma put_refuses_varying: "\<not> put_accepts rq varying"
  by (simp add: put_accepts_def varying_def)

lemma put_refuses_partial_content: "\<not> put_accepts rq partial_content"
  by (simp add: put_accepts_def partial_content_def page_def)

lemma startsWith_iff: "startsWith s p \<longleftrightarrow> (\<exists>ss. s = p @ ss)"
proof
  assume "startsWith s p"
  then have "s = p @ drop (length p) s"
    by (metis append_take_drop_id startsWith_def)
  then show "\<exists>ss. s = p @ ss" ..
next
  assume "\<exists>ss. s = p @ ss"
  then show "startsWith s p"
    by (auto simp: startsWith_def)
qed

lemma includes_str_iff: "includes_str s d \<longleftrightarrow> (\<exists>ps ss. s = ps @ d @ ss)"
proof (induction s)
  case Nil
  then show ?case by simp
next
  case (Cons c cs)
  show ?case
  proof
    assume "includes_str (c # cs) d"
    then consider "startsWith (c # cs) d" | "includes_str cs d"
      by auto
    then show "\<exists>ps ss. c # cs = ps @ d @ ss"
    proof cases
      case 1
      then obtain ss where "c # cs = d @ ss"
        by (auto simp: startsWith_iff)
      then have "c # cs = [] @ d @ ss" by simp
      then show ?thesis by blast
    next
      case 2
      with Cons.IH obtain ps ss where "cs = ps @ d @ ss" by blast
      then have "c # cs = (c # ps) @ d @ ss" by simp
      then show ?thesis by blast
    qed
  next
    assume "\<exists>ps ss. c # cs = ps @ d @ ss"
    then obtain ps ss where split: "c # cs = ps @ d @ ss" by blast
    show "includes_str (c # cs) d"
    proof (cases ps)
      case Nil
      with split have "startsWith (c # cs) d"
        by (auto simp: startsWith_iff)
      then show ?thesis by simp
    next
      case (Cons p ps')
      with split have "cs = ps' @ d @ ss" by simp
      with Cons.IH have "includes_str cs d" by blast
      then show ?thesis by simp
    qed
  qed
qed

section \<open>Routing of fetch events\<close>

text \<open>
  The handler follows the routing contract in which the test for an HTTP(S) scheme is the
  one of the source, \<^verbatim>\<open>url.protocol.startsWith('http')\<close>.
\<close>

lemma on_fetch_prefix_routing:
  "on_fetch E request w
     = apply_routing E request w (routing_contract (\<lambda>p. startsWith p ''http'') request)"
  by (simp add: on_fetch_def apply_routing_def routing_contract_def)

lemma http_or_https_prefix: "http_or_https p \<Longrightarrow> startsWith p ''http''"
  by (auto simp: http_or_https_def startsWith_def)

text \<open>
  Claim C1. For every fetch event the handler follows the first rule that matches, in this
  order: a request that is not GET, or whose scheme is not HTTP(S), is not intercepted (the
  handler returns without responding and without any effect); a hostname that contains a
  network-first domain as a substring gets network-first; a path that is an entry of the
  static asset manifest gets cache-first; destination \<^verbatim>\<open>image\<close> gets
  stale-while-revalidate; every other request gets network-first. The requests are those
  a browser dispatches: the scheme is HTTP or HTTPS, or it is another scheme (such as an
  extension's), whose name does not start with \<^verbatim>\<open>http\<close>.
\<close>

theorem on_fetch_routing:
  assumes "http_or_https (protocol (url request)) \<or> \<not> startsWith (protocol (url request)) ''http''"
  shows "on_fetch E request w = apply_routing E request w (routing_contract http_or_https request)"
proof -
  from assms have "startsWith (protocol (url request)) ''http'' = http_or_https (protocol (url request))"
    using http_or_https_prefix by blast
  then have "routing_contract (\<lambda>p. startsWith p ''http'') request
      = routing_contract http_or_https request"
    by (simp add: routing_contract_def)
  then show ?thesis
    by (simp add: on_fetch_prefix_routing)
qed

theorem on_fetch_routing_witness:
  "http_or_https (protocol (url index_request)) \<and>
   on_fetch (site offline) index_request fresh_world
     = respondWith (cacheFirst (site offline) index_request fresh_world) \<and>
   http_or_https (protocol (url api_request)) \<and>
   on_fetch (site offline) api_request fresh_world
     = respondWith (networkFirst (site offline) api_request fresh_world) \<and>
   http_or_https (protocol (url image_request)) \<and>
   on_fetch (site offline) image_request fresh_world
     = respondWith (staleWhileRevalidate (site offline) image_request fresh_world) \<and>
   http_or_https (protocol (url plain_http_request)) \<and>
   on_fetch (site offline) plain_http_request fresh_world
     = respondWith (networkFirst (site offline) plain_http_request fresh_world) \<and>
   http_or_https (protocol (url post_request)) \<and>
   on_fetch (site offline) post_request fresh_world = (PassThrough, fresh_world) \<and>
   \<not> startsWith (protocol (url extension_request)) ''http'' \<and>
   on_fetch (site offline) extension_request fresh_world = (PassThrough, fresh_world)"
proof -
  have h1: "http_or_https (protocol (url index_request))"
    by (simp add: index_request_def get_request_def http_or_https_def)
  have h2: "http_or_https (protocol (url api_request))"
    by (simp add: api_request_def get_request_def http_or_https_def)
  have h3: "http_or_https (protocol (url image_request))"
    by (simp add: image_request_def get_request_def http_or_https_def)
  have h4: "http_or_https (protocol (url plain_http_request))"
    by (simp add: plain_http_request_def get_request_def http_or_https_def)
  have h5: "http_or_https (protocol (url post_request))"
    by (simp add: post_request_def get_request_def http_or_https_def)
  have h6: "\<not> startsWith (protocol (url extension_request)) ''http''"
    by (simp add: extension_request_def get_request_def startsWith_def)
  have r1: "routing_contract http_or_https index_request = Apply CacheFirst"
    by (simp add: routing_contract_def index_request_def get_request_def http_or_https_def
        NETWORK_FIRST_def STATIC_ASSETS_def startsWith_def)
  have r2: "routing_contract http_or_https api_request = Apply NetworkFirst"
    by (simp add: routing_contract_def api_request_def get_request_def http_or_https_def
        NETWORK_FIRST_def startsWith_def)
  have r3: "routing_contract http_or_https image_request = Apply StaleWhileRevalidate"
    by (simp add: routing_contract_def image_request_def get_request_def http_or_https_def
        NETWORK_FIRST_def STATIC_ASSETS_def startsWith_def)
  have r4: "routing_contract http_or_https plain_http_request = Apply NetworkFirst"
    by (simp add: routing_contract_def plain_http_request_def get_request_def http_or_https_def
        NETWORK_FIRST_def STATIC_ASSETS_def startsWith_def)
  have r5: "routing_contract http_or_https post_request = NotIntercepted"
    by (simp add: routing_contract_def post_request_def get_request_def)
  have r6: "routing_contract http_or_https extension_request = NotIntercepted"
    by (simp add: routing_contract_def extension_request_def get_request_def http_or_https_def)
  have 1: "on_fetch (site offline) index_request fresh_world
     = respondWith (cacheFirst (site offline) index_request fresh_world)"
    using on_fetch_routing [of index_request "site offline" fresh_world] h1 r1
    by (simp add: apply_routing_def)
  have 2: "on_fetch (site offline) api_request fresh_world
     = respondWith (networkFirst (site offline) api_request fresh_world)"
    using on_fetch_routing [of api_request "site offline" fresh_world] h2 r2
    by (simp add: apply_routing_def)
  have 3: "on_fetch (site offline) image_request fresh_world
     = respondWith (staleWhileRevalidate (site offline) image_request fresh_world)"
    using on_fetch_routing [of image_request "site offline" fresh_world] h3 r3
    by (simp add: apply_routing_def)
  have 4: "on_fetch (site offline) plain_http_request fresh_world
     = respondWith (networkFirst (site offline) plain_http_request fresh_world)"
    using on_fetch_routing [of plain_http_request "site offline" fresh_world] h4 r4
    by (simp add: apply_routing_def)
  have 5: "on_fetch (site offline) post_request fresh_world = (PassThrough, fresh_world)"
    using on_fetch_routing [of post_request "site offline" fresh_world] h5 r5
    by (simp add: apply_routing_def)
  have 6: "on_fetch (site offline) extension_request fresh_world = (PassThrough, fresh_world)"
    using on_fetch_routing [of extension_request "site offline" fresh_world] h6 r6
    by (simp add: apply_routing_def)
  from h1 h2 h3 h4 h5 h6 1 2 3 4 5 6 show ?thesis by blast
qed

section \<open>Cache-first\<close>

text \<open>
  Claim C2, as amended. For every request handled by cache-first: when some cache of the
  storage holds a copy that matches the request, that copy is returned and the state is
  unchanged, so no fetch is made; when none does, exactly one fetch is made; when that fetch
  resolves with an ok response, the response is returned, and it is then the entry of the
  request in the static generation unless the cache refuses it (status 206 or
  \<^verbatim>\<open>Vary: *\<close>), in which case nothing is stored; when the fetch rejects, the offline
  fallback is returned and the storage is unchanged.
\<close>

theorem cacheFirst_contract:
  "(\<forall>cached. caches_match (caches w) request = Some cached \<longrightarrow>
      cacheFirst E request w = (Resolved (Some cached), w)) \<and>
   (caches_match (caches w) request = None \<longrightarrow>
      fetches (new_events w (snd (cacheFirst E request w))) = [request] \<and>
      (\<forall>r. net E request = Resolved r \<and> ok r \<longrightarrow>
         fst (cacheFirst E request w) = Resolved (Some r)) \<and>
      (\<forall>r. net E request = Resolved r \<and> ok r \<and> put_accepts request r \<longrightarrow>
         generation_match STATIC_CACHE (caches (snd (cacheFirst E request w))) request = Some r) \<and>
      (\<forall>r. net E request = Resolved r \<and> ok r \<and> \<not> put_accepts request r \<longrightarrow>
         caches (snd (cacheFirst E request w)) = caches_open STATIC_CACHE (caches w)) \<and>
      (\<forall>err. net E request = Rejected err \<longrightarrow>
         fst (cacheFirst E request w) = Resolved (offlineFallback E request w) \<and>
         caches (snd (cacheFirst E request w)) = caches w))"
proof (intro conjI allI impI)
  fix cached
  assume "caches_match (caches w) request = Some cached"
  then show "cacheFirst E request w = (Resolved (Some cached), w)"
    by (simp add: cacheFirst_def)
next
  assume miss: "caches_match (caches w) request = None"
  show "fetches (new_events w (snd (cacheFirst E request w))) = [request]"
    using miss
    by (cases "net E request")
      (simp_all add: cacheFirst_def fetch_def new_events_def Let_def events_put)
  {
    fix r
    assume "net E request = Resolved r \<and> ok r"
    with miss show "fst (cacheFirst E request w) = Resolved (Some r)"
      by (simp add: cacheFirst_def fetch_def Let_def)
  }
  {
    fix r
    assume "net E request = Resolved r \<and> ok r \<and> put_accepts request r"
    with miss
    show "generation_match STATIC_CACHE (caches (snd (cacheFirst E request w))) request = Some r"
      by (simp add: cacheFirst_def fetch_def Let_def caches_put_world generation_match_put opened
          matches_itself)
  }
  {
    fix r
    assume "net E request = Resolved r \<and> ok r \<and> \<not> put_accepts request r"
    with miss
    show "caches (snd (cacheFirst E request w)) = caches_open STATIC_CACHE (caches w)"
      by (simp add: cacheFirst_def fetch_def Let_def caches_put_world)
  }
  {
    fix err
    assume down: "net E request = Rejected err"
    with miss show "fst (cacheFirst E request w) = Resolved (offlineFallback E request w)"
      by (simp add: cacheFirst_def fetch_def Let_def)
    from miss down show "caches (snd (cacheFirst E request w)) = caches w"
      by (simp add: cacheFirst_def fetch_def Let_def)
  }
qed

theorem cacheFirst_contract_witness:
  "caches_match (caches (holding DYNAMIC_CACHE login_request shell)) login_at_fragment = Some shell \<and>
   cacheFirst (site offline) login_at_fragment (holding DYNAMIC_CACHE login_request shell)
     = (Resolved (Some shell), holding DYNAMIC_CACHE login_request shell) \<and>
   caches_match (caches fresh_world) index_request = None \<and>
   (net (site (serving shell)) index_request = Resolved shell \<and> ok shell \<and>
    put_accepts index_request shell) \<and>
   fetches (new_events fresh_world (snd (cacheFirst (site (serving shell)) index_request fresh_world)))
     = [index_request] \<and>
   fst (cacheFirst (site (serving shell)) index_request fresh_world) = Resolved (Some shell) \<and>
   generation_match STATIC_CACHE
     (caches (snd (cacheFirst (site (serving shell)) index_request fresh_world))) index_request
     = Some shell \<and>
   (net (site (serving varying)) index_request = Resolved varying \<and> ok varying \<and>
    \<not> put_accepts index_request varying) \<and>
   caches (snd (cacheFirst (site (serving varying)) index_request fresh_world))
     = caches_open STATIC_CACHE (caches fresh_world) \<and>
   net (site offline) index_request = Rejected NetworkError \<and>
   fst (cacheFirst (site offline) index_request fresh_world)
     = Resolved (offlineFallback (site offline) index_request fresh_world) \<and>
   caches (snd (cacheFirst (site offline) index_request fresh_world)) = caches fresh_world"
proof -
  have hit: "caches_match (caches (holding DYNAMIC_CACHE login_request shell)) login_at_fragment
      = Some shell"
    by (simp add: holding_def login_at_fragment_def login_request_def get_request_def
        cache_match_def request_matches_def shell_def page_def)
  have miss: "caches_match (caches fresh_world) index_request = None"
    by simp
  have live: "net (site (serving shell)) index_request = Resolved shell \<and> ok shell \<and>
      put_accepts index_request shell"
    by (simp add: site_def serving_def ok_shell put_accepts_index_shell)
  have refused: "net (site (serving varying)) index_request = Resolved varying \<and> ok varying \<and>
      \<not> put_accepts index_request varying"
    by (simp add: site_def serving_def ok_varying put_refuses_varying)
  have down: "net (site offline) index_request = Rejected NetworkError"
    by (simp add: site_def offline_def)
  note a = cacheFirst_contract [where w = "holding DYNAMIC_CACHE login_request shell"
      and request = login_at_fragment and E = "site offline"]
  note b = cacheFirst_contract [where w = fresh_world and request = index_request
      and E = "site (serving shell)"]
  note c = cacheFirst_contract [where w = fresh_world and request = index_request
      and E = "site (serving varying)"]
  note d = cacheFirst_contract [where w = fresh_world and request = index_request
      and E = "site offline"]
  from a hit
  have 1: "cacheFirst (site offline) login_at_fragment (holding DYNAMIC_CACHE login_request shell)
      = (Resolved (Some shell), holding DYNAMIC_CACHE login_request shell)"
    by blast
  from b miss live
  have 2: "fetches (new_events fresh_world
             (snd (cacheFirst (site (serving shell)) index_request fresh_world))) = [index_request] \<and>
     fst (cacheFirst (site (serving shell)) index_request fresh_world) = Resolved (Some shell) \<and>
     generation_match STATIC_CACHE
       (caches (snd (cacheFirst (site (serving shell)) index_request fresh_world))) index_request
       = Some shell"
    by blast
  from c miss refused
  have 3: "caches (snd (cacheFirst (site (serving varying)) index_request fresh_world))
      = caches_open STATIC_CACHE (caches fresh_world)"
    by blast
  from d miss down
  have 4: "fst (cacheFirst (site offline) index_request fresh_world)
       = Resolved (offlineFallback (site offline) index_request fresh_world) \<and>
     caches (snd (cacheFirst (site offline) index_request fresh_world)) = caches fresh_world"
    by blast
  from hit miss live refused down 1 2 3 4 show ?thesis by blast
qed

text \<open>
  Claim C2 as stated fails where it says that an ok response is stored: a 200 response
  with \<^verbatim>\<open>Vary: *\<close> is returned, and the static generation, opened for it, stays empty.
\<close>

theorem cacheFirst_refused_response:
  "caches_match (caches fresh_world) index_request = None \<and>
   net (site (serving varying)) index_request = Resolved varying \<and>
   ok varying \<and>
   fst (cacheFirst (site (serving varying)) index_request fresh_world) = Resolved (Some varying) \<and>
   generation_match STATIC_CACHE
     (caches (snd (cacheFirst (site (serving varying)) index_request fresh_world))) index_request
     = None \<and>
   caches (snd (cacheFirst (site (serving varying)) index_request fresh_world))
     = [(STATIC_CACHE, [])]"
proof -
  have refused: "\<not> put_accepts index_request varying"
    by (rule put_refuses_varying)
  have live: "net (site (serving varying)) index_request = Resolved varying"
    by (simp add: site_def serving_def)
  have run: "cacheFirst (site (serving varying)) index_request fresh_world
      = (Resolved (Some varying),
         put STATIC_CACHE index_request varying
           (open_cache STATIC_CACHE
              (emit (AwaitFetch index_request) (emit (Fetch index_request) fresh_world))))"
    using live by (simp add: cacheFirst_def fetch_def Let_def ok_varying)
  have left: "caches (snd (cacheFirst (site (serving varying)) index_request fresh_world))
      = [(STATIC_CACHE, [])]"
    using refused
    by (simp add: run caches_put_world caches_open_def caches_keys_def)
  with live run show ?thesis
    by (simp add: ok_varying generation_match_def)
qed

section \<open>Network-first\<close>

text \<open>
  Claim C3, as amended. For every request handled by network-first: the first effect is the
  fetch of the request, and it is the only fetch; the promise always resolves, it never
  rejects; when the fetch resolves with an ok response, the response is returned whatever
  the caches held, and it is then the entry of the request in the dynamic generation unless
  the cache refuses it (status 206 or \<^verbatim>\<open>Vary: *\<close>), in which case nothing is stored;
  when the fetch rejects, the copy found across all caches is returned and, when there is
  none, the offline fallback. (A response that is not ok is returned and not stored.)
\<close>

theorem networkFirst_contract:
  "(\<exists>rest. new_events w (snd (networkFirst E request w)) = Fetch request # rest) \<and>
   fetches (new_events w (snd (networkFirst E request w))) = [request] \<and>
   (\<exists>v. fst (networkFirst E request w) = Resolved v) \<and>
   (\<forall>r. net E request = Resolved r \<longrightarrow> fst (networkFirst E request w) = Resolved (Some r)) \<and>
   (\<forall>r. net E request = Resolved r \<and> ok r \<and> put_accepts request r \<longrightarrow>
      generation_match DYNAMIC_CACHE (caches (snd (networkFirst E request w))) request = Some r) \<and>
   (\<forall>r. net E request = Resolved r \<and> ok r \<and> \<not> put_accepts request r \<longrightarrow>
      caches (snd (networkFirst E request w)) = caches_open DYNAMIC_CACHE (caches w)) \<and>
   (\<forall>r. net E request = Resolved r \<and> \<not> ok r \<longrightarrow>
      caches (snd (networkFirst E request w)) = caches w) \<and>
   (\<forall>err. net E request = Rejected err \<longrightarrow>
      fst (networkFirst E request w)
        = Resolved (case caches_match (caches w) request of
                      Some cached \<Rightarrow> Some cached
                    | None \<Rightarrow> offlineFallback E request w) \<and>
      caches (snd (networkFirst E request w)) = caches w)"
proof (cases "net E request")
  case (Resolved r)
  then show ?thesis
    by (simp add: networkFirst_def fetch_def new_events_def Let_def events_put caches_put_world
        generation_match_put opened matches_itself)
next
  case (Rejected err)
  then show ?thesis
    by (simp add: networkFirst_def fetch_def new_events_def Let_def split: option.split)
qed

theorem networkFirst_contract_witness:
  "(net (site (serving shell)) api_request = Resolved shell \<and> ok shell \<and>
    put_accepts api_request shell) \<and>
   caches_match (caches (holding DYNAMIC_CACHE api_request stale)) api_request = Some stale \<and>
   fst (networkFirst (site (serving shell)) api_request (holding DYNAMIC_CACHE api_request stale))
     = Resolved (Some shell) \<and>
   generation_match DYNAMIC_CACHE
     (caches (snd (networkFirst (site (serving shell)) api_request
                     (holding DYNAMIC_CACHE api_request stale)))) api_request = Some shell \<and>
   (net (site (serving partial_content)) video_range_request = Resolved partial_content \<and>
    ok partial_content \<and> \<not> put_accepts video_range_request partial_content) \<and>
   caches (snd (networkFirst (site (serving partial_content)) video_range_request fresh_world))
     = caches_open DYNAMIC_CACHE (caches fresh_world) \<and>
   (net (site (serving missing)) api_request = Resolved missing \<and> \<not> ok missing) \<and>
   fst (networkFirst (site (serving missing)) api_request fresh_world) = Resolved (Some missing) \<and>
   caches (snd (networkFirst (site (serving missing)) api_request fresh_world)) = caches fresh_world \<and>
   net (site offline) api_request = Rejected NetworkError \<and>
   fst (networkFirst (site offline) api_request (holding DYNAMIC_CACHE api_request stale))
     = Resolved (Some stale)"
proof -
  let ?w = "holding DYNAMIC_CACHE api_request stale"
  have live: "net (site (serving shell)) api_request = Resolved shell \<and> ok shell \<and>
      put_accepts api_request shell"
    by (simp add: site_def serving_def ok_shell put_accepts_api_shell)
  have part: "net (site (serving partial_content)) video_range_request = Resolved partial_content \<and>
      ok partial_content \<and> \<not> put_accepts video_range_request partial_content"
    by (simp add: site_def serving_def ok_partial_content put_refuses_partial_content)
  have bad: "net (site (serving missing)) api_request = Resolved missing \<and> \<not> ok missing"
    by (simp add: site_def serving_def not_ok_missing)
  have down: "net (site offline) api_request = Rejected NetworkError"
    by (simp add: site_def offline_def)
  have held: "caches_match (caches ?w) api_request = Some stale"
    by (simp add: holding_def cache_match_def request_matches_def api_request_def get_request_def
        stale_def page_def)
  from networkFirst_contract [where w = ?w and request = api_request and E = "site (serving shell)"]
    live
  have 1: "fst (networkFirst (site (serving shell)) api_request ?w) = Resolved (Some shell) \<and>
     generation_match DYNAMIC_CACHE
       (caches (snd (networkFirst (site (serving shell)) api_request ?w))) api_request = Some shell"
    by blast
  from networkFirst_contract [where w = fresh_world and request = video_range_request
      and E = "site (serving partial_content)"] part
  have 2: "caches (snd (networkFirst (site (serving partial_content)) video_range_request
                          fresh_world)) = caches_open DYNAMIC_CACHE (caches fresh_world)"
    by blast
  from networkFirst_contract [where w = fresh_world and request = api_request
      and E = "site (serving missing)"] bad
  have 3: "fst (networkFirst (site (serving missing)) api_request fresh_world)
       = Resolved (Some missing) \<and>
     caches (snd (networkFirst (site (serving missing)) api_request fresh_world))
       = caches fresh_world"
    by blast
  from networkFirst_contract [where w = ?w and request = api_request and E = "site offline"] down
  have "fst (networkFirst (site offline) api_request ?w)
       = Resolved (case caches_match (caches ?w) api_request of
                     Some cached \<Rightarrow> Some cached
                   | None \<Rightarrow> offlineFallback (site offline) api_request ?w)"
    by blast
  with held have 4: "fst (networkFirst (site offline) api_request ?w) = Resolved (Some stale)"
    by simp
  from live part bad down held 1 2 3 4 show ?thesis by blast
qed

text \<open>
  Claim C3 as stated fails where it says that a successful response is copied into the
  dynamic generation: a range request for a media file, which takes the default route, is
  answered with status 206; the response is ok and is returned, and the dynamic generation,
  opened for it, stays empty.
\<close>

theorem networkFirst_partial_content:
  "on_fetch (site (serving partial_content)) video_range_request fresh_world
     = respondWith (networkFirst (site (serving partial_content)) video_range_request fresh_world) \<and>
   net (site (serving partial_content)) video_range_request = Resolved partial_content \<and>
   ok partial_content \<and>
   fst (networkFirst (site (serving partial_content)) video_range_request fresh_world)
     = Resolved (Some partial_content) \<and>
   generation_match DYNAMIC_CACHE
     (caches (snd (networkFirst (site (serving partial_content)) video_range_request fresh_world)))
     video_range_request = None \<and>
   caches (snd (networkFirst (site (serving partial_content)) video_range_request fresh_world))
     = [(DYNAMIC_CACHE, [])]"
proof -
  have route: "on_fetch (site (serving partial_content)) video_range_request fresh_world
     = respondWith (networkFirst (site (serving partial_content)) video_range_request fresh_world)"
    by (simp add: on_fetch_def video_range_request_def get_request_def startsWith_def
        NETWORK_FIRST_def STATIC_ASSETS_def)
  have live: "net (site (serving partial_content)) video_range_request = Resolved partial_content"
    by (simp add: site_def serving_def)
  have run: "networkFirst (site (serving partial_content)) video_range_request fresh_world
      = (Resolved (Some partial_content),
         put DYNAMIC_CACHE video_range_request partial_content
           (open_cache DYNAMIC_CACHE
              (emit (AwaitFetch video_range_request)
                 (emit (Fetch video_range_request) fresh_world))))"
    using live by (simp add: networkFirst_def fetch_def Let_def ok_partial_content)
  have left: "caches (snd (networkFirst (site (serving partial_content)) video_range_request
                             fresh_world)) = [(DYNAMIC_CACHE, [])]"
    by (simp add: run caches_put_world put_refuses_partial_content caches_open_def caches_keys_def)
  with route live run show ?thesis
    by (simp add: ok_partial_content generation_match_def)
qed

section \<open>Stale-while-revalidate\<close>

text \<open>
  Claim C4, as amended. For every request handled by stale-while-revalidate: exactly one
  fetch is issued, and an ok response of it becomes the entry of the request in the dynamic
  generation unless the cache refuses it (status 206 or \<^verbatim>\<open>Vary: *\<close>); any other outcome
  of the fetch stores nothing. When the dynamic generation held a copy, the copy is
  returned whatever the fetch does, and the function does not wait for the fetch. When it
  held none, the function waits for the fetch and returns the response the fetch resolves
  with, whatever its status; it returns the offline fallback only when the fetch rejects.
\<close>

theorem staleWhileRevalidate_contract:
  "fetches (new_events w (snd (staleWhileRevalidate E request w))) = [request] \<and>
   (\<forall>r. net E request = Resolved r \<and> ok r \<and> put_accepts request r \<longrightarrow>
      generation_match DYNAMIC_CACHE (caches (snd (staleWhileRevalidate E request w))) request
        = Some r) \<and>
   (\<forall>r. net E request = Resolved r \<and> \<not> (ok r \<and> put_accepts request r) \<longrightarrow>
      caches (snd (staleWhileRevalidate E request w)) = caches_open DYNAMIC_CACHE (caches w)) \<and>
   (\<forall>err. net E request = Rejected err \<longrightarrow>
      caches (snd (staleWhileRevalidate E request w)) = caches_open DYNAMIC_CACHE (caches w)) \<and>
   (\<forall>cached. generation_match DYNAMIC_CACHE (caches w) request = Some cached \<longrightarrow>
      fst (staleWhileRevalidate E request w) = Resolved (Some cached) \<and>
      AwaitFetch request \<notin> set (new_events w (snd (staleWhileRevalidate E request w)))) \<and>
   (generation_match DYNAMIC_CACHE (caches w) request = None \<longrightarrow>
      AwaitFetch request \<in> set (new_events w (snd (staleWhileRevalidate E request w))) \<and>
      (\<forall>r. net E request = Resolved r \<longrightarrow>
         fst (staleWhileRevalidate E request w) = Resolved (Some r)) \<and>
      (\<forall>err. net E request = Rejected err \<longrightarrow>
         fst (staleWhileRevalidate E request w) = Resolved (offlineFallback E request w)))"
proof (cases "net E request")
  case (Resolved r)
  show ?thesis
  proof (cases "generation_match DYNAMIC_CACHE (caches w) request")
    case None
    with Resolved show ?thesis
      by (simp add: staleWhileRevalidate_def fetch_def new_events_def Let_def events_put
          caches_put_world revalidate_Resolved generation_match_put opened matches_itself)
  next
    case (Some cached)
    with Resolved show ?thesis
      by (simp add: staleWhileRevalidate_def fetch_def new_events_def Let_def events_put
          caches_put_world revalidate_Resolved generation_match_put opened matches_itself)
  qed
next
  case (Rejected err)
  show ?thesis
  proof (cases "generation_match DYNAMIC_CACHE (caches w) request")
    case None
    with Rejected show ?thesis
      by (simp add: staleWhileRevalidate_def fetch_def new_events_def Let_def
          revalidate_Rejected)
  next
    case (Some cached)
    with Rejected show ?thesis
      by (simp add: staleWhileRevalidate_def fetch_def new_events_def Let_def
          revalidate_Rejected)
  qed
qed

theorem staleWhileRevalidate_contract_witness:
  "generation_match DYNAMIC_CACHE (caches (holding DYNAMIC_CACHE image_request stale)) image_request
     = Some stale \<and>
   (net (site (serving shell)) image_request = Resolved shell \<and> ok shell \<and>
    put_accepts image_request shell) \<and>
   fst (staleWhileRevalidate (site (serving shell)) image_request
          (holding DYNAMIC_CACHE image_request stale)) = Resolved (Some stale) \<and>
   AwaitFetch image_request \<notin>
     set (new_events (holding DYNAMIC_CACHE image_request stale)
            (snd (staleWhileRevalidate (site (serving shell)) image_request
                    (holding DYNAMIC_CACHE image_request stale)))) \<and>
   generation_match DYNAMIC_CACHE
     (caches (snd (staleWhileRevalidate (site (serving shell)) image_request
                     (holding DYNAMIC_CACHE image_request stale)))) image_request = Some shell \<and>
   generation_match DYNAMIC_CACHE (caches fresh_world) image_request = None \<and>
   (net (site (serving missing)) image_request = Resolved missing \<and>
    \<not> (ok missing \<and> put_accepts image_request missing)) \<and>
   AwaitFetch image_request \<in>
     set (new_events fresh_world
            (snd (staleWhileRevalidate (site (serving missing)) image_request fresh_world))) \<and>
   fst (staleWhileRevalidate (site (serving missing)) image_request fresh_world)
     = Resolved (Some missing) \<and>
   caches (snd (staleWhileRevalidate (site (serving missing)) image_request fresh_world))
     = caches_open DYNAMIC_CACHE (caches fresh_world) \<and>
   net (site offline) image_request = Rejected NetworkError \<and>
   fst (staleWhileRevalidate (site offline) image_request fresh_world)
     = Resolved (offlineFallback (site offline) image_request fresh_world) \<and>
   caches (snd (staleWhileRevalidate (site offline) image_request fresh_world))
     = caches_open DYNAMIC_CACHE (caches fresh_world)"
proof -
  let ?w = "holding DYNAMIC_CACHE image_request stale"
  have held: "generation_match DYNAMIC_CACHE (caches ?w) image_request = Some stale"
    by (simp add: holding_def generation_match_def cache_match_def request_matches_def
        image_request_def get_request_def stale_def page_def)
  have none: "generation_match DYNAMIC_CACHE (caches fresh_world) image_request = None"
    by (simp add: generation_match_def)
  have live: "net (site (serving shell)) image_request = Resolved shell \<and> ok shell \<and>
      put_accepts image_request shell"
    by (simp add: site_def serving_def ok_shell put_accepts_image_shell)
  have bad: "net (site (serving missing)) image_request = Resolved missing \<and>
      \<not> (ok missing \<and> put_accepts image_request missing)"
    by (simp add: site_def serving_def not_ok_missing)
  have down: "net (site offline) image_request = Rejected NetworkError"
    by (simp add: site_def offline_def)
  from staleWhileRevalidate_contract [where w = ?w and request = image_request
      and E = "site (serving shell)"] held live
  have 1: "fst (staleWhileRevalidate (site (serving shell)) image_request ?w)
       = Resolved (Some stale) \<and>
     AwaitFetch image_request \<notin>
       set (new_events ?w (snd (staleWhileRevalidate (site (serving shell)) image_request ?w))) \<and>
     generation_match DYNAMIC_CACHE
       (caches (snd (staleWhileRevalidate (site (serving shell)) image_request ?w))) image_request
       = Some shell"
    by blast
  from staleWhileRevalidate_contract [where w = fresh_world and request = image_request
      and E = "site (serving missing)"] none bad
  have 2: "AwaitFetch image_request \<in>
       set (new_events fresh_world
              (snd (staleWhileRevalidate (site (serving missing)) image_request fresh_world))) \<and>
     fst (staleWhileRevalidate (site (serving missing)) image_request fresh_world)
       = Resolved (Some missing) \<and>
     caches (snd (staleWhileRevalidate (site (serving missing)) image_request fresh_world))
       = caches_open DYNAMIC_CACHE (caches fresh_world)"
    by blast
  from staleWhileRevalidate_contract [where w = fresh_world and request = image_request
      and E = "site offline"] none down
  have 3: "fst (staleWhileRevalidate (site offline) image_request fresh_world)
       = Resolved (offlineFallback (site offline) image_request fresh_world) \<and>
     caches (snd (staleWhileRevalidate (site offline) image_request fresh_world))
       = caches_open DYNAMIC_CACHE (caches fresh_world)"
    by blast
  from held none live bad down 1 2 3 show ?thesis by blast
qed

text \<open>
  Claim C4 as stated fails in two places. With nothing cached, a fetch that resolves with a
  response that is not ok (a 404) is not answered by the offline fallback: the 404 itself is
  returned. And an ok response does not always overwrite the entry of the dynamic
  generation: a 200 response with \<^verbatim>\<open>Vary: *\<close> leaves the stale copy in place.
\<close>

theorem staleWhileRevalidate_not_found:
  "generation_match DYNAMIC_CACHE (caches fresh_world) image_request = None \<and>
   net (site (serving missing)) image_request = Resolved missing \<and>
   \<not> ok missing \<and>
   fst (staleWhileRevalidate (site (serving missing)) image_request fresh_world)
     = Resolved (Some missing) \<and>
   offlineFallback (site (serving missing)) image_request fresh_world \<noteq> Some missing \<and>
   net (site (serving varying)) image_request = Resolved varying \<and>
   ok varying \<and>
   generation_match DYNAMIC_CACHE
     (caches (snd (staleWhileRevalidate (site (serving varying)) image_request
                     (holding DYNAMIC_CACHE image_request stale)))) image_request = Some stale"
proof -
  let ?w = "holding DYNAMIC_CACHE image_request stale"
  have none: "generation_match DYNAMIC_CACHE (caches fresh_world) image_request = None"
    by (simp add: generation_match_def)
  have bad: "net (site (serving missing)) image_request = Resolved missing"
    by (simp add: site_def serving_def)
  have 1: "fst (staleWhileRevalidate (site (serving missing)) image_request fresh_world)
     = Resolved (Some missing)"
    using none bad
    by (simp add: staleWhileRevalidate_def fetch_def Let_def revalidate_Resolved not_ok_missing)
  have 2: "offlineFallback (site (serving missing)) image_request fresh_world \<noteq> Some missing"
    by (simp add: offlineFallback_def image_request_def get_request_def missing_def page_def)
  have live: "net (site (serving varying)) image_request = Resolved varying"
    by (simp add: site_def serving_def)
  have held: "generation_match DYNAMIC_CACHE (caches ?w) image_request = Some stale"
    by (simp add: holding_def generation_match_def cache_match_def request_matches_def
        image_request_def get_request_def stale_def page_def)
  have "caches (snd (staleWhileRevalidate (site (serving varying)) image_request ?w))
      = caches_open DYNAMIC_CACHE (caches ?w)"
    using live held
    by (simp add: staleWhileRevalidate_def fetch_def Let_def revalidate_Resolved ok_varying
        caches_put_world put_refuses_varying)
  with held
  have 3: "generation_match DYNAMIC_CACHE
     (caches (snd (staleWhileRevalidate (site (serving varying)) image_request ?w))) image_request
     = Some stale"
    by simp
  from none bad 1 2 live 3 show ?thesis
    by (simp add: not_ok_missing ok_varying)
qed

section \<open>The offline fallback\<close>

text \<open>
  What the fallback returns: for a document, the result of looking \<^verbatim>\<open>/index.html\<close> up
  across the caches; for any other destination, an empty response of status 503.
\<close>

lemma offlineFallback_document:
  "destination request = ''document'' \<Longrightarrow>
   offlineFallback E request w = caches_match (caches w) (url_request E ''/index.html'')"
  by (simp add: offlineFallback_def)

lemma offlineFallback_other:
  "destination request \<noteq> ''document'' \<Longrightarrow>
   offlineFallback E request w
     = Some \<lparr>status = 503, statusText = ''Sem conex'' @ [CHR 0xC3, CHR 0xA3] @ ''o'', vary = [],
             content = []\<rparr>"
  by (simp add: offlineFallback_def)

text \<open>
  Claim C5 says that a document request whose root document was never cached gets an empty
  503 response. The code returns the result of the cache lookup as it is: with no cached
  \<^verbatim>\<open>/index.html\<close> the fallback is undefined, cache-first resolves with it and the fetch
  handler responds with no response at all.
\<close>

theorem offlineFallback_document_uncached:
  "offlineFallback (site offline) index_request fresh_world = None \<and>
   fst (cacheFirst (site offline) index_request fresh_world) = Resolved None \<and>
   fst (on_fetch (site offline) index_request fresh_world) = RespondWith (Resolved None)"
proof -
  have dest: "destination index_request = ''document''"
    by (simp add: index_request_def get_request_def)
  have 1: "offlineFallback (site offline) index_request fresh_world = None"
    by (simp add: offlineFallback_document dest)
  have down: "net (site offline) index_request = Rejected NetworkError"
    by (simp add: site_def offline_def)
  have miss: "caches_match (caches fresh_world) index_request = None"
    by simp
  have 2: "fst (cacheFirst (site offline) index_request fresh_world) = Resolved None"
    using down miss 1 by (simp add: cacheFirst_def fetch_def Let_def)
  have "on_fetch (site offline) index_request fresh_world
          = respondWith (cacheFirst (site offline) index_request fresh_world)"
    by (simp add: on_fetch_def index_request_def get_request_def startsWith_def NETWORK_FIRST_def
        STATIC_ASSETS_def)
  with 2 have 3: "fst (on_fetch (site offline) index_request fresh_world) = RespondWith (Resolved None)"
    by (simp add: respondWith_def)
  from 1 2 3 show ?thesis by simp
qed

section \<open>Activation\<close>

lemma caches_delete_cache [simp]: "caches (delete_cache key w) = caches_delete key (caches w)"
  by (simp add: delete_cache_def)

lemma events_delete_cache [simp]: "events (delete_cache key w) = events w @ [CacheDelete key]"
  by (simp add: delete_cache_def)

lemma caches_removals:
  "caches (fold (\<lambda>key v. delete_cache key (emit (ConsoleLog [msg, key]) v)) ks w)
     = filter (\<lambda>g. fst g \<notin> set ks) (caches w)"
  by (induction ks arbitrary: w) (auto simp: caches_delete_def intro: filter_cong)

lemma events_removals:
  "events (fold (\<lambda>key v. delete_cache key (emit (ConsoleLog [msg, key]) v)) ks w)
     = events w @ concat (map (\<lambda>key. [ConsoleLog [msg, key], CacheDelete key]) ks)"
  by (induction ks arbitrary: w) simp_all

lemma deletions_removals:
  "deletions (concat (map (\<lambda>key. [ConsoleLog [msg, key], CacheDelete key]) ks)) = ks"
  by (induction ks) simp_all

lemma caches_on_activate:
  "caches (snd (on_activate w))
     = filter (\<lambda>g. fst g = STATIC_CACHE \<or> fst g = DYNAMIC_CACHE) (caches w)"
  by (auto simp: on_activate_def Let_def caches_removals caches_keys_def intro: filter_cong)

lemma deletions_on_activate:
  "deletions (new_events w (snd (on_activate w)))
     = filter (\<lambda>key. key \<noteq> STATIC_CACHE \<and> key \<noteq> DYNAMIC_CACHE) (caches_keys (caches w))"
  by (simp add: on_activate_def Let_def events_removals new_events_def deletions_removals)

lemma no_stale_after_activate:
  "filter (\<lambda>key. key \<noteq> STATIC_CACHE \<and> key \<noteq> DYNAMIC_CACHE)
     (caches_keys (caches (snd (on_activate w)))) = []"
  by (auto simp: caches_on_activate caches_keys_def filter_empty_conv)

lemma caches_fetching [simp]: "caches (fold (\<lambda>rq. emit (Fetch rq)) rqs w) = caches w"
  by (induction rqs arbitrary: w) simp_all

lemma events_fetching [simp]:
  "events (fold (\<lambda>rq. emit (Fetch rq)) rqs w) = events w @ map Fetch rqs"
  by (induction rqs arbitrary: w) simp_all

lemma caches_keys_batch_put:
  "caches_batch_put name operations cs = Some cs' \<Longrightarrow> caches_keys cs' = caches_keys cs"
  by (auto simp: caches_batch_put_def split: option.splits)

lemma caches_keys_addAll:
  "caches_keys (caches (snd (addAll E name requests w))) = caches_keys (caches w)"
  by (auto simp: addAll_def Let_def caches_keys_batch_put split: option.splits)

lemma caches_keys_on_install:
  "caches_keys (caches (snd (on_install E w))) = caches_keys (caches_open STATIC_CACHE (caches w))"
proof -
  let ?w = "emit (ConsoleLog [''[SW Luvano] Cacheando assets est'' @ [CHR 0xC3, CHR 0xA1]
                              @ ''ticos''])
              (open_cache STATIC_CACHE
                 (emit (ConsoleLog [''[SW Luvano] Instalando vers'' @ [CHR 0xC3, CHR 0xA3] @ ''o:'',
                                    CACHE_NAME]) w))"
  let ?run = "addAll E STATIC_CACHE (map (reload_request E) STATIC_ASSETS) ?w"
  have "caches (snd (on_install E w)) = caches (snd ?run)"
    by (cases ?run rule: prod.exhaust [case_names Pair], cases "fst ?run")
      (auto simp: on_install_def Let_def)
  then show ?thesis
    by (simp add: caches_keys_addAll)
qed

text \<open>
  Claim C6, as amended. Activation deletes every existing cache whose name is neither the
  current static nor the current dynamic generation name, and nothing else: the caches that
  remain are those of the two current generations that existed before. A second activation
  deletes nothing and leaves the storage as it is. After an install followed by activation,
  over any earlier storage, the current static generation exists and no generation other than
  the two current ones does.
\<close>

theorem on_activate_contract:
  "caches (snd (on_activate w))
     = filter (\<lambda>g. fst g = STATIC_CACHE \<or> fst g = DYNAMIC_CACHE) (caches w) \<and>
   deletions (new_events w (snd (on_activate w)))
     = filter (\<lambda>key. key \<noteq> STATIC_CACHE \<and> key \<noteq> DYNAMIC_CACHE) (caches_keys (caches w)) \<and>
   deletions (new_events (snd (on_activate w)) (snd (on_activate (snd (on_activate w))))) = [] \<and>
   caches (snd (on_activate (snd (on_activate w)))) = caches (snd (on_activate w)) \<and>
   STATIC_CACHE \<in> set (caches_keys (caches (snd (on_activate (snd (on_install E w)))))) \<and>
   set (caches_keys (caches (snd (on_activate (snd (on_install E w))))))
     \<subseteq> {STATIC_CACHE, DYNAMIC_CACHE}"
proof -
  have again: "deletions (new_events (snd (on_activate w)) (snd (on_activate (snd (on_activate w))))) = []"
    by (simp add: deletions_on_activate no_stale_after_activate)
  have same: "caches (snd (on_activate (snd (on_activate w)))) = caches (snd (on_activate w))"
    by (simp add: caches_on_activate)
  have "STATIC_CACHE \<in> set (caches_keys (caches (snd (on_install E w))))"
    by (simp add: caches_keys_on_install opened)
  then have kept: "STATIC_CACHE \<in> set (caches_keys (caches (snd (on_activate (snd (on_install E w))))))"
    by (auto simp: caches_on_activate caches_keys_def)
  have only: "set (caches_keys (caches (snd (on_activate (snd (on_install E w))))))
     \<subseteq> {STATIC_CACHE, DYNAMIC_CACHE}"
    by (auto simp: caches_on_activate caches_keys_def)
  from again same kept only show ?thesis
    by (simp add: caches_on_activate deletions_on_activate)
qed

text \<open>
  Claim C6 as stated fails where it says that exactly the two current generations remain:
  activation creates no cache, so when the dynamic generation was never opened (a first
  install over an older version), only the static generation remains.
\<close>

theorem on_activate_first_install:
  "caches_keys (caches (snd (on_activate
      \<lparr>caches = [(STATIC_CACHE, []), (''luvano-static-v0'', [])], events = []\<rparr>)))
     = [STATIC_CACHE] \<and>
   DYNAMIC_CACHE \<notin> set (caches_keys (caches (snd (on_activate
      \<lparr>caches = [(STATIC_CACHE, []), (''luvano-static-v0'', [])], events = []\<rparr>))))"
  by (simp add: caches_on_activate caches_keys_def STATIC_CACHE_def DYNAMIC_CACHE_def)

section \<open>Installation\<close>

lemma fetched_None_iff: "fetched ps = None \<longleftrightarrow> \<not> list_all settles_ok ps"
  by (induction ps rule: fetched.induct) (auto simp: settles_ok_def)

lemma fetched_SomeD: "fetched ps = Some rs \<Longrightarrow> ps = map Resolved rs"
  by (induction ps arbitrary: rs rule: fetched.induct) (auto split: if_splits)

lemma fetches_map_Fetch [simp]: "fetches (map Fetch rqs) = rqs"
  by (induction rqs) simp_all

lemma fetches_map_Fetch_comp [simp]: "fetches (map (Fetch \<circ> f) xs) = map f xs"
  by (induction xs) simp_all

lemma other_url_no_match:
  "without_fragment (url q) \<noteq> without_fragment (url (fst item)) \<Longrightarrow> \<not> request_matches q item"
  by (simp add: request_matches_def)

lemma batch_put_other:
  "batch_put added operations c = Some c' \<Longrightarrow>
   without_fragment (url q) \<notin> (\<lambda>operation. without_fragment (url (fst operation))) ` set operations \<Longrightarrow>
   cache_match c' q = cache_match c q"
proof (induction operations arbitrary: added c)
  case Nil
  then show ?case by simp
next
  case (Cons operation operations)
  from Cons.prems(1)
  have rest: "batch_put (added @ [operation]) operations
                (cache_put (fst operation) (snd operation) c) = Some c'"
    by (simp split: if_splits)
  from Cons.prems(2)
  have "without_fragment (url q) \<noteq> without_fragment (url (fst operation))"
    and "without_fragment (url q)
           \<notin> (\<lambda>operation. without_fragment (url (fst operation))) ` set operations"
    by auto
  with Cons.IH [OF rest] show ?case
    by (simp add: cache_match_put_other)
qed

lemma batch_put_holds:
  "batch_put added operations c = Some c' \<Longrightarrow>
   distinct (map (\<lambda>operation. without_fragment (url (fst operation))) operations) \<Longrightarrow>
   (rq, r) \<in> set operations \<Longrightarrow> request_matches rq (rq, r) \<Longrightarrow>
   cache_match c' rq = Some r"
proof (induction operations arbitrary: added c)
  case Nil
  then show ?case by simp
next
  case (Cons operation operations)
  from Cons.prems(1)
  have rest: "batch_put (added @ [operation]) operations
                (cache_put (fst operation) (snd operation) c) = Some c'"
    by (simp split: if_splits)
  from Cons.prems(2)
  have fresh: "without_fragment (url (fst operation))
           \<notin> (\<lambda>operation. without_fragment (url (fst operation))) ` set operations"
    and d: "distinct (map (\<lambda>operation. without_fragment (url (fst operation))) operations)"
    by auto
  show ?case
  proof (cases "operation = (rq, r)")
    case True
    with rest fresh
    have "cache_match c' rq = cache_match (cache_put rq r c) rq"
      by (simp add: batch_put_other)
    with Cons.prems(4) show ?thesis
      by (simp add: cache_match_put)
  next
    case False
    with Cons.prems(3) have "(rq, r) \<in> set operations" by simp
    from Cons.IH [OF rest d this Cons.prems(4)] show ?thesis .
  qed
qed

lemma batch_put_succeeds:
  "distinct (map (\<lambda>operation. without_fragment (url (fst operation))) operations) \<Longrightarrow>
   (\<lambda>item. without_fragment (url (fst item))) ` set added
     \<inter> (\<lambda>operation. without_fragment (url (fst operation))) ` set operations = {} \<Longrightarrow>
   \<exists>c'. batch_put added operations c = Some c'"
proof (induction operations arbitrary: added c)
  case Nil
  then show ?case by simp
next
  case (Cons operation operations)
  have "\<not> list_ex (request_matches (fst operation)) added"
  proof
    assume "list_ex (request_matches (fst operation)) added"
    then obtain item where "item \<in> set added" and "request_matches (fst operation) item"
      by (auto simp: list_ex_iff)
    then have "without_fragment (url (fst item)) = without_fragment (url (fst operation))"
      by (simp add: request_matches_def)
    with \<open>item \<in> set added\<close>
    have "without_fragment (url (fst operation))
            \<in> (\<lambda>item. without_fragment (url (fst item))) ` set added"
      by (metis imageI)
    with Cons.prems(2) show False
      by auto
  qed
  moreover from Cons.prems
  have "\<exists>c'. batch_put (added @ [operation]) operations
                (cache_put (fst operation) (snd operation) c) = Some c'"
    by (intro Cons.IH) auto
  ultimately show ?case by simp
qed

lemma generation_match_replaced:
  "map_of cs name = Some c \<Longrightarrow>
   generation_match name (update_cache name (\<lambda>old. c') cs) q = cache_match c' q"
proof -
  assume c: "map_of cs name = Some c"
  then have "name \<in> set (caches_keys cs)"
    by (auto simp: caches_keys_def dest: map_of_SomeD intro: rev_image_eqI)
  with c show ?thesis
    by (simp add: generation_match_update)
qed

lemma url_reload_request [simp]:
  "without_fragment (url (reload_request E path)) = origin E @ path"
  by (simp add: reload_request_def url_request_def)

lemma distinct_STATIC_ASSETS: "distinct STATIC_ASSETS"
  by (simp add: STATIC_ASSETS_def)

lemma distinct_reload_requests:
  "distinct (map (\<lambda>rq. without_fragment (url rq)) (map (reload_request E) STATIC_ASSETS))"
proof -
  have "distinct (map (\<lambda>path. origin E @ path) STATIC_ASSETS)"
    by (simp add: distinct_map distinct_STATIC_ASSETS inj_on_def)
  then show ?thesis
    by (simp add: comp_def)
qed

lemma reload_requests_valid:
  "http_or_https (protocol (location E)) \<Longrightarrow>
   \<not> list_ex (\<lambda>rq. \<not> (http_or_https (protocol (url rq)) \<and> method rq = ''GET''))
       (map (reload_request E) paths)"
  by (simp add: list_ex_iff reload_request_def url_request_def)

lemma reload_request_matches:
  "''*'' \<notin> set (vary r) \<Longrightarrow> request_matches (reload_request E path) (reload_request E path, r)"
  by (auto simp: request_matches_def reload_request_def url_request_def list_all_iff)

lemma settles_ok_shell: "settles_ok (Resolved shell)"
  by (simp add: settles_ok_def shell_def page_def ok_def)

lemma not_settles_ok_partial_content: "\<not> settles_ok (Resolved partial_content)"
  by (simp add: settles_ok_def partial_content_def page_def)

text \<open>
  Claim C7. On install the promise handed to \<^verbatim>\<open>waitUntil\<close> always resolves. For a worker
  served over HTTP(S): every path of the static asset manifest is fetched, in order, with a
  request of cache mode \<^verbatim>\<open>reload\<close>; when every fetch settles with a response that
  \<^verbatim>\<open>addAll\<close> accepts, each response is the entry of its request in the static generation
  and \<^verbatim>\<open>skipWaiting\<close> is called; otherwise the error is written to the console as a
  warning, \<^verbatim>\<open>skipWaiting\<close> is not called and the storage is what opening the static
  generation left.
\<close>

theorem on_install_contract:
  "fst (on_install E w) = Resolved () \<and>
   (http_or_https (protocol (location E)) \<longrightarrow>
      fetches (new_events w (snd (on_install E w))) = map (reload_request E) STATIC_ASSETS \<and>
      list_all (\<lambda>rq. cache_mode rq = ''reload'') (fetches (new_events w (snd (on_install E w)))) \<and>
      (list_all (\<lambda>path. settles_ok (net E (reload_request E path))) STATIC_ASSETS \<longrightarrow>
         (\<forall>path \<in> set STATIC_ASSETS.
            map_option Resolved
              (generation_match STATIC_CACHE (caches (snd (on_install E w)))
                 (reload_request E path))
              = Some (net E (reload_request E path))) \<and>
         SkipWaiting \<in> set (new_events w (snd (on_install E w)))) \<and>
      (\<not> list_all (\<lambda>path. settles_ok (net E (reload_request E path))) STATIC_ASSETS \<longrightarrow>
         ConsoleWarn ''[SW Luvano] Erro no cache inicial:'' TypeError
           \<in> set (new_events w (snd (on_install E w))) \<and>
         SkipWaiting \<notin> set (new_events w (snd (on_install E w))) \<and>
         caches (snd (on_install E w)) = caches_open STATIC_CACHE (caches w)))"
proof (intro conjI impI)
  show "fst (on_install E w) = Resolved ()"
    by (simp add: on_install_def Let_def split: prod.split promise.split)
next
  assume served: "http_or_https (protocol (location E))"
  define rqs where "rqs = map (reload_request E) STATIC_ASSETS"
  define w2 where "w2 =
    emit (ConsoleLog [''[SW Luvano] Cacheando assets est'' @ [CHR 0xC3, CHR 0xA1] @ ''ticos''])
      (open_cache STATIC_CACHE
         (emit (ConsoleLog [''[SW Luvano] Instalando vers'' @ [CHR 0xC3, CHR 0xA3] @ ''o:'',
                            CACHE_NAME]) w))"
  define w3 where "w3 = fold (\<lambda>rq. emit (Fetch rq)) rqs w2"
  have run: "on_install E w =
      (case addAll E STATIC_CACHE rqs w2 of
         (Resolved u, v) \<Rightarrow> (Resolved (), emit SkipWaiting v)
       | (Rejected err, v) \<Rightarrow>
           (Resolved (), emit (ConsoleWarn ''[SW Luvano] Erro no cache inicial:'' err) v))"
    by (simp add: on_install_def Let_def rqs_def w2_def)
  have caches_w3: "caches w3 = caches_open STATIC_CACHE (caches w)"
    by (simp add: w3_def w2_def)
  obtain logs where events_w3: "events w3 = events w @ logs @ map Fetch rqs"
    and quiet: "fetches logs = []" "SkipWaiting \<notin> set logs"
    by (simp add: w3_def w2_def)
  have valid: "\<not> list_ex (\<lambda>rq. \<not> (http_or_https (protocol (url rq)) \<and> method rq = ''GET'')) rqs"
    unfolding rqs_def using served by (rule reload_requests_valid)
  have all: "list_all settles_ok (map (net E) rqs)
      = list_all (\<lambda>path. settles_ok (net E (reload_request E path))) STATIC_ASSETS"
    by (simp add: rqs_def list_all_iff)
  have reload: "list_all (\<lambda>rq. cache_mode rq = ''reload'') rqs"
    by (simp add: rqs_def list_all_iff reload_request_def)
  have outcome:
    "(list_all settles_ok (map (net E) rqs) \<longrightarrow>
        (\<exists>cs. snd (on_install E w) = emit SkipWaiting (w3\<lparr>caches := cs\<rparr>) \<and>
              (\<forall>path \<in> set STATIC_ASSETS. \<forall>r. net E (reload_request E path) = Resolved r \<longrightarrow>
                 generation_match STATIC_CACHE cs (reload_request E path) = Some r))) \<and>
     (\<not> list_all settles_ok (map (net E) rqs) \<longrightarrow>
        snd (on_install E w)
          = emit (ConsoleWarn ''[SW Luvano] Erro no cache inicial:'' TypeError) w3)"
  proof (cases "fetched (map (net E) rqs)")
    case None
    then have "addAll E STATIC_CACHE rqs w2 = (Rejected TypeError, w3)"
      using valid by (simp add: addAll_def Let_def w3_def)
    with None show ?thesis
      by (simp add: run fetched_None_iff)
  next
    case (Some rs)
    then have settled: "map (net E) rqs = map Resolved rs"
      by (rule fetched_SomeD)
    then have len: "length rs = length rqs"
      by (metis length_map)
    from Some have good: "list_all settles_ok (map (net E) rqs)"
      using fetched_None_iff [of "map (net E) rqs"] by simp
    have "STATIC_CACHE \<in> set (caches_keys (caches w3))"
      by (simp add: caches_w3 opened)
    then have "map_of (caches w3) STATIC_CACHE \<noteq> None"
      by (simp add: caches_keys_def map_of_eq_None_iff)
    then obtain c where c: "map_of (caches w3) STATIC_CACHE = Some c"
      by blast
    have urls: "map (\<lambda>operation. without_fragment (url (fst operation))) (zip rqs rs)
        = map (\<lambda>rq. without_fragment (url rq)) rqs"
    proof -
      have "map (\<lambda>operation. without_fragment (url (fst operation))) (zip rqs rs)
          = map (\<lambda>rq. without_fragment (url rq)) (map fst (zip rqs rs))"
        by (simp add: comp_def)
      also from len have "map fst (zip rqs rs) = rqs"
        by simp
      finally show ?thesis .
    qed
    have d: "distinct (map (\<lambda>operation. without_fragment (url (fst operation))) (zip rqs rs))"
    proof -
      have "distinct (map (\<lambda>rq. without_fragment (url rq)) rqs)"
        unfolding rqs_def by (rule distinct_reload_requests)
      then show ?thesis
        by (simp only: urls)
    qed
    from batch_put_succeeds [OF d, of "[]" c]
    obtain c' where c': "batch_put [] (zip rqs rs) c = Some c'"
      by auto
    let ?cs = "update_cache STATIC_CACHE (\<lambda>old. c') (caches w3)"
    have "addAll E STATIC_CACHE rqs w2 = (Resolved (), w3\<lparr>caches := ?cs\<rparr>)"
      using valid Some c c' by (simp add: addAll_def Let_def w3_def caches_batch_put_def)
    then have 1: "snd (on_install E w) = emit SkipWaiting (w3\<lparr>caches := ?cs\<rparr>)"
      by (simp add: run)
    have 2: "generation_match STATIC_CACHE ?cs (reload_request E path) = Some r"
      if path: "path \<in> set STATIC_ASSETS" and r: "net E (reload_request E path) = Resolved r"
      for path r
    proof -
      from path obtain i where i: "i < length rqs" "rqs ! i = reload_request E path"
        by (metis in_set_conv_nth rqs_def imageI set_map)
      with settled have "Resolved (rs ! i) = net E (rqs ! i)"
        by (metis len nth_map)
      with i r have "rs ! i = r" by simp
      with i len have member: "(reload_request E path, r) \<in> set (zip rqs rs)"
        by (metis in_set_zip fst_conv snd_conv)
      from good path all have "settles_ok (net E (reload_request E path))"
        by (simp add: list_all_iff)
      with r have "''*'' \<notin> set (vary r)"
        by (simp add: settles_ok_def)
      then have "request_matches (reload_request E path) (reload_request E path, r)"
        by (rule reload_request_matches)
      with c' d member have "cache_match c' (reload_request E path) = Some r"
        by (rule batch_put_holds)
      with c show ?thesis
        by (simp add: generation_match_replaced)
    qed
    from good 1 2 show ?thesis by blast
  qed
  show "fetches (new_events w (snd (on_install E w))) = map (reload_request E) STATIC_ASSETS"
    using outcome events_w3 quiet
    by (cases "list_all settles_ok (map (net E) rqs)") (auto simp: new_events_def rqs_def)
  then show "list_all (\<lambda>rq. cache_mode rq = ''reload'') (fetches (new_events w (snd (on_install E w))))"
    using reload by (simp add: rqs_def)
  {
    assume good: "list_all (\<lambda>path. settles_ok (net E (reload_request E path))) STATIC_ASSETS"
    with all outcome obtain cs where cs: "snd (on_install E w) = emit SkipWaiting (w3\<lparr>caches := cs\<rparr>)"
      and held: "\<forall>path \<in> set STATIC_ASSETS. \<forall>r. net E (reload_request E path) = Resolved r \<longrightarrow>
                   generation_match STATIC_CACHE cs (reload_request E path) = Some r"
      by auto
    show "\<forall>path \<in> set STATIC_ASSETS.
            map_option Resolved
              (generation_match STATIC_CACHE (caches (snd (on_install E w)))
                 (reload_request E path))
              = Some (net E (reload_request E path))"
    proof
      fix path
      assume path: "path \<in> set STATIC_ASSETS"
      with good have "settles_ok (net E (reload_request E path))"
        by (simp add: list_all_iff)
      then obtain r where r: "net E (reload_request E path) = Resolved r"
        by (cases "net E (reload_request E path)") (simp_all add: settles_ok_def)
      with held path have "generation_match STATIC_CACHE cs (reload_request E path) = Some r"
        by blast
      with r show "map_option Resolved
              (generation_match STATIC_CACHE (caches (snd (on_install E w)))
                 (reload_request E path))
              = Some (net E (reload_request E path))"
        by (simp add: cs)
    qed
    show "SkipWaiting \<in> set (new_events w (snd (on_install E w)))"
      by (simp add: cs new_events_def events_w3)
  }
  {
    assume bad: "\<not> list_all (\<lambda>path. settles_ok (net E (reload_request E path))) STATIC_ASSETS"
    with all outcome
    have warned: "snd (on_install E w)
        = emit (ConsoleWarn ''[SW Luvano] Erro no cache inicial:'' TypeError) w3"
      by simp
    show "ConsoleWarn ''[SW Luvano] Erro no cache inicial:'' TypeError
           \<in> set (new_events w (snd (on_install E w)))"
      by (simp add: warned new_events_def events_w3)
    show "SkipWaiting \<notin> set (new_events w (snd (on_install E w)))"
      using quiet by (auto simp: warned new_events_def events_w3)
    show "caches (snd (on_install E w)) = caches_open STATIC_CACHE (caches w)"
      by (simp add: warned caches_w3)
  }
qed

theorem on_install_contract_witness:
  "http_or_https (protocol (location (site (serving shell)))) \<and>
   list_all (\<lambda>path. settles_ok (net (site (serving shell))
                                    (reload_request (site (serving shell)) path))) STATIC_ASSETS \<and>
   generation_match STATIC_CACHE (caches (snd (on_install (site (serving shell)) fresh_world)))
     (reload_request (site (serving shell)) ''/index.html'') = Some shell \<and>
   SkipWaiting \<in> set (new_events fresh_world (snd (on_install (site (serving shell)) fresh_world))) \<and>
   http_or_https (protocol (location (site (serving partial_content)))) \<and>
   \<not> list_all (\<lambda>path. settles_ok (net (site (serving partial_content))
                                      (reload_request (site (serving partial_content)) path)))
       STATIC_ASSETS \<and>
   fst (on_install (site (serving partial_content)) fresh_world) = Resolved () \<and>
   ConsoleWarn ''[SW Luvano] Erro no cache inicial:'' TypeError
     \<in> set (new_events fresh_world (snd (on_install (site (serving partial_content)) fresh_world))) \<and>
   SkipWaiting
     \<notin> set (new_events fresh_world (snd (on_install (site (serving partial_content)) fresh_world))) \<and>
   caches (snd (on_install (site (serving partial_content)) fresh_world)) = [(STATIC_CACHE, [])]"
proof -
  have served: "http_or_https (protocol (location (site (serving shell))))"
    by (simp add: site_def http_or_https_def)
  have served': "http_or_https (protocol (location (site (serving partial_content))))"
    by (simp add: site_def http_or_https_def)
  have good: "list_all (\<lambda>path. settles_ok (net (site (serving shell))
                                    (reload_request (site (serving shell)) path))) STATIC_ASSETS"
    by (simp add: list_all_iff site_def serving_def settles_ok_shell)
  have bad: "\<not> list_all (\<lambda>path. settles_ok (net (site (serving partial_content))
                                      (reload_request (site (serving partial_content)) path)))
       STATIC_ASSETS"
    by (simp add: STATIC_ASSETS_def site_def serving_def not_settles_ok_partial_content)
  have index: "''/index.html'' \<in> set STATIC_ASSETS"
    by (simp add: STATIC_ASSETS_def)
  note live = on_install_contract [where E = "site (serving shell)" and w = fresh_world]
  note part = on_install_contract [where E = "site (serving partial_content)" and w = fresh_world]
  from live served good index
  have "map_option Resolved
          (generation_match STATIC_CACHE (caches (snd (on_install (site (serving shell)) fresh_world)))
             (reload_request (site (serving shell)) ''/index.html''))
        = Some (net (site (serving shell)) (reload_request (site (serving shell)) ''/index.html''))"
    by blast
  then have 1: "generation_match STATIC_CACHE
      (caches (snd (on_install (site (serving shell)) fresh_world)))
      (reload_request (site (serving shell)) ''/index.html'') = Some shell"
    by (auto simp: site_def serving_def)
  from live served good
  have 2: "SkipWaiting \<in> set (new_events fresh_world (snd (on_install (site (serving shell)) fresh_world)))"
    by blast
  from part have 3: "fst (on_install (site (serving partial_content)) fresh_world) = Resolved ()"
    by blast
  from part served' bad
  have 4: "ConsoleWarn ''[SW Luvano] Erro no cache inicial:'' TypeError
       \<in> set (new_events fresh_world (snd (on_install (site (serving partial_content)) fresh_world))) \<and>
     SkipWaiting
       \<notin> set (new_events fresh_world (snd (on_install (site (serving partial_content)) fresh_world))) \<and>
     caches (snd (on_install (site (serving partial_content)) fresh_world))
       = caches_open STATIC_CACHE (caches fresh_world)"
    by blast
  then have 5: "caches (snd (on_install (site (serving partial_content)) fresh_world))
      = [(STATIC_CACHE, [])]"
    by (simp add: caches_open_def caches_keys_def)
  from served served' good bad 1 2 3 4 5 show ?thesis by blast
qed

section \<open>Push notifications: the handler\<close>

text \<open>
  What the push handler displays: for a payload that does not parse, the title
  \<^verbatim>\<open>Luvano\<close> and the raw text as body (the default body when the text is empty); for a
  payload that parses to an object, its members title, body, url and tag where they are
  truthy and the defaults otherwise.
\<close>

lemma push_unparsable:
  "json_of d = Inl err \<Longrightarrow>
   on_push (Some d) w
     = (Inr (),
        emit (ShowNotification (JString ''Luvano'')
                \<lparr>body = (if text_of d = [] then JString default_body else JString (text_of d)),
                 data_url = JString ''/notificacoes.html'',
                 tag = JString ''luvano-notif''\<rparr>) w)"
  by (simp add: on_push_def or_else_def)

lemma push_object:
  "json_of d = Inr (JObject members) \<Longrightarrow>
   on_push (Some d) w
     = (Inr (),
        emit (ShowNotification (or_else (map_of members ''title'') (JString default_title))
                \<lparr>body = or_else (map_of members ''body'') (JString default_body),
                 data_url = or_else (map_of members ''url'') (JString ''/notificacoes.html''),
                 tag = or_else (map_of members ''tag'') (JString ''luvano-notif'')\<rparr>) w)"
  by (simp add: on_push_def)

text \<open>
  Claim C8 says that every push event with a payload displays a notification. A payload
  that parses as JSON \<^verbatim>\<open>null\<close> makes the handler throw a TypeError when it reads
  \<^verbatim>\<open>data.body\<close>: no notification is displayed.
\<close>

theorem push_null_payload_throws:
  "on_push (Some \<lparr>json_of = Inr JNull, text_of = ''null''\<rparr>) w = (Inl TypeError, w)"
  by (simp add: on_push_def)

text \<open>
  Claim C10. A push event without a payload makes the handler return at once: nothing is
  displayed and the state is unchanged.
\<close>

theorem push_without_payload: "on_push None w = (Inr (), w)"
  by (simp add: on_push_def)

section \<open>Only ok responses are stored\<close>

lemma all_ok_open [simp]: "all_ok (caches_open name cs) = all_ok cs"
  by (simp add: all_ok_def caches_open_def)

lemma all_ok_put: "ok r \<Longrightarrow> all_ok cs \<Longrightarrow> all_ok (caches_put name rq r cs)"
  by (induction cs)
    (auto simp: all_ok_def caches_put_def update_cache_def cache_put_def list_all_iff)

lemma put_keeps_ok: "ok r \<Longrightarrow> all_ok (caches w) \<Longrightarrow> all_ok (caches (put name rq r w))"
  by (simp add: caches_put_world all_ok_put)

lemma stored_put: "stored (events (put name rq r w)) = stored (events w) @ [r]"
  by (simp add: events_put)

lemma cacheFirst_keeps_ok:
  "all_ok (caches w) \<Longrightarrow> all_ok (caches (snd (cacheFirst E request w)))"
  by (cases "net E request")
    (simp_all add: cacheFirst_def fetch_def Let_def put_keeps_ok split: option.split)

lemma networkFirst_keeps_ok:
  "all_ok (caches w) \<Longrightarrow> all_ok (caches (snd (networkFirst E request w)))"
  by (cases "net E request")
    (simp_all add: networkFirst_def fetch_def Let_def put_keeps_ok split: option.split)

lemma staleWhileRevalidate_keeps_ok:
  "all_ok (caches w) \<Longrightarrow> all_ok (caches (snd (staleWhileRevalidate E request w)))"
  by (cases "net E request")
    (simp_all add: staleWhileRevalidate_def fetch_def Let_def put_keeps_ok revalidate_Resolved
      revalidate_Rejected split: option.split)

lemma on_fetch_keeps_ok:
  "all_ok (caches w) \<Longrightarrow> all_ok (caches (snd (on_fetch E request w)))"
  by (simp add: on_fetch_def respondWith_def cacheFirst_keeps_ok networkFirst_keeps_ok
      staleWhileRevalidate_keeps_ok)

lemma fetch_events_keep_ok:
  "all_ok (caches w) \<Longrightarrow> all_ok (caches (fetch_events run w))"
proof (induction run arbitrary: w)
  case Nil
  then show ?case by simp
next
  case (Cons step run)
  obtain E request where step: "step = (E, request)"
    by (cases step)
  from Cons.prems have "all_ok (caches (snd (on_fetch E request w)))"
    by (rule on_fetch_keeps_ok)
  then have "all_ok (caches (fetch_events run (snd (on_fetch E request w))))"
    by (rule Cons.IH)
  with step show ?case by simp
qed

lemma cacheFirst_stores_ok: "list_all ok (stored (new_events w (snd (cacheFirst E request w))))"
  by (cases "net E request")
    (simp_all add: cacheFirst_def fetch_def Let_def new_events_def events_put split: option.split)

lemma networkFirst_stores_ok: "list_all ok (stored (new_events w (snd (networkFirst E request w))))"
  by (cases "net E request")
    (simp_all add: networkFirst_def fetch_def Let_def new_events_def events_put split: option.split)

lemma staleWhileRevalidate_stores_ok:
  "list_all ok (stored (new_events w (snd (staleWhileRevalidate E request w))))"
  by (cases "net E request")
    (simp_all add: staleWhileRevalidate_def fetch_def Let_def new_events_def events_put
      revalidate_Resolved revalidate_Rejected split: option.split)

text \<open>
  Claim C9. Every response that cache-first, network-first or stale-while-revalidate writes
  to a cache is an ok response; so each of them, and any sequence of fetch events, keeps the
  invariant that every entry of every cache is an ok response.
\<close>

theorem strategies_store_only_ok:
  "list_all ok (stored (new_events w (snd (cacheFirst E request w)))) \<and>
   list_all ok (stored (new_events w (snd (networkFirst E request w)))) \<and>
   list_all ok (stored (new_events w (snd (staleWhileRevalidate E request w)))) \<and>
   (all_ok (caches w) \<longrightarrow>
      all_ok (caches (snd (cacheFirst E request w))) \<and>
      all_ok (caches (snd (networkFirst E request w))) \<and>
      all_ok (caches (snd (staleWhileRevalidate E request w))) \<and>
      all_ok (caches (fetch_events run w)))"
  by (simp add: cacheFirst_stores_ok networkFirst_stores_ok staleWhileRevalidate_stores_ok
      cacheFirst_keeps_ok networkFirst_keeps_ok staleWhileRevalidate_keeps_ok fetch_events_keep_ok)

theorem strategies_store_only_ok_witness:
  "all_ok (caches (holding DYNAMIC_CACHE image_request stale)) \<and>
   all_ok (caches (snd (cacheFirst (site (serving missing)) image_request
                          (holding DYNAMIC_CACHE image_request stale)))) \<and>
   all_ok (caches (snd (networkFirst (site (serving missing)) image_request
                          (holding DYNAMIC_CACHE image_request stale)))) \<and>
   all_ok (caches (snd (staleWhileRevalidate (site (serving missing)) image_request
                          (holding DYNAMIC_CACHE image_request stale)))) \<and>
   all_ok (caches (fetch_events
                     [(site (serving missing), image_request), (site (serving shell), index_request),
                      (site offline, api_request)]
                     (holding DYNAMIC_CACHE image_request stale)))"
proof -
  let ?w = "holding DYNAMIC_CACHE image_request stale"
  have start: "all_ok (caches ?w)"
    by (simp add: holding_def all_ok_def ok_stale)
  from strategies_store_only_ok [where w = ?w and E = "site (serving missing)"
      and request = image_request
      and run = "[(site (serving missing), image_request), (site (serving shell), index_request),
                  (site offline, api_request)]"] start
  show ?thesis by blast
qed

end
